theory Spec2Isabelle
  imports Main
begin

section \<open>The focus timer of TimerAD\<close>

text \<open>
  The repository holds three versions of one React application (\<^verbatim>\<open>App\<close>):
  \<^item> the \<^emph>\<open>widget\<close> version, \<^verbatim>\<open>src/index.tsx\<close> lines 1 to 531: a focus widget is opened
    first (\<^verbatim>\<open>handleOpenWidget\<close>), a timer is started from a button inside the widget,
    and \<^verbatim>\<open>isDistracted\<close> is React state captured by the interval callback;
  \<^item> the \<^emph>\<open>async-start\<close> version, \<^verbatim>\<open>src/index.tsx\<close> lines 532 to 979: the asynchronous
    \<^verbatim>\<open>handleStartTimer\<close> acquires the picture-in-picture window and then sets
    \<^verbatim>\<open>timedTaskId\<close>;
  \<^item> the \<^emph>\<open>effect-acquire\<close> version, \<^verbatim>\<open>src/unnamed/part_000\<close>: \<^verbatim>\<open>handleStartTimer\<close> only sets
    \<^verbatim>\<open>timedTaskId\<close> and an effect acquires the window (\<^verbatim>\<open>openPipWindow\<close>).

  The last two share \<^verbatim>\<open>handleStopTimer\<close> and the interval callback, which reads
  \<^verbatim>\<open>isDistractedRef.current\<close> when it runs.

  The counters of a task are JavaScript numbers, that is IEEE 754 doubles. The source
  creates them as 0 and adds 1 to them; a task list that is imported or loaded from the
  local storage carries the numbers it was saved with. The model keeps the non-negative
  integers among the doubles, as naturals, and writes out where the operations that the
  source applies to them round.
\<close>

subsection \<open>Numbers\<close>

text \<open>
  A double has 53 significant bits. Every natural below \<open>2 ^ 53\<close> is a double; from there
  on the doubles are the naturals whose binary digits after the first 53 are all zero.
  \<open>roundDouble n\<close> is the double nearest to the natural \<open>n\<close>, the even significand
  winning a tie (the rounding of every arithmetic operation of JavaScript). A natural
  stands for a number of the program only if it is a double, \<open>isDouble\<close>; a result of
  \<open>roundDouble\<close> from \<open>2 ^ 1024\<close> up stands for \<^verbatim>\<open>Infinity\<close> and is not one.
\<close>

fun bitLength :: "nat \<Rightarrow> nat" where
  "bitLength n = (if n = 0 then 0 else Suc (bitLength (n div 2)))"

declare bitLength.simps [simp del]

text \<open>The integer nearest to \<open>a / b\<close>, the even one when two are as near.\<close>

definition roundHalfEven :: "nat \<Rightarrow> nat \<Rightarrow> nat" where
  "roundHalfEven a b =
     (let q = a div b; r = a mod b
      in if 2 * r < b \<or> (2 * r = b \<and> even q) then q else q + 1)"

definition roundDouble :: "nat \<Rightarrow> nat" where
  "roundDouble n = (let e = bitLength n - 53 in roundHalfEven n (2 ^ e) * 2 ^ e)"

definition isDouble :: "nat \<Rightarrow> bool" where
  "isDouble n = (roundDouble n = n \<and> n < 2 ^ 1024)"

text \<open>
  \<^verbatim>\<open>a + b\<close> on two of these numbers is the exact sum, rounded. (The source only adds 1,
  which never reaches \<^verbatim>\<open>Infinity\<close>.)
\<close>

definition addDouble :: "nat \<Rightarrow> nat \<Rightarrow> nat" where
  "addDouble a b = roundDouble (a + b)"

text \<open>
  \<^verbatim>\<open>Math.floor(a / b)\<close> for a divisor \<open>0 < b\<close>: the quotient \<^verbatim>\<open>a / b\<close> is a double, the exact
  quotient rounded to 53 significant bits, and the floor is taken of that. With \<open>l\<close> the
  bit length of \<open>a div b\<close>, the exact quotient lies from \<open>2 ^ (l - 1)\<close> up and below
  \<open>2 ^ l\<close>, so its last significant bit has the weight \<open>2 ^ (l - 53)\<close>: for \<open>l \<le> 53\<close>
  the quotient is rounded to a multiple of \<open>1 / 2 ^ (53 - l)\<close>, for \<open>53 < l\<close> to a multiple
  of \<open>2 ^ (l - 53)\<close>. A quotient below 1 (\<open>l = 0\<close>) stays below 1 when it is rounded,
  since the divisors of the source, 3600 and 60, are far below \<open>2 ^ 53\<close>. The remainder
  \<^verbatim>\<open>a % b\<close> of two doubles is exact, and is written \<open>a mod b\<close>.
\<close>

definition floorDiv :: "nat \<Rightarrow> nat \<Rightarrow> nat" where
  "floorDiv a b =
     (let l = bitLength (a div b)
      in if l = 0 then 0
         else if l \<le> 53 then roundHalfEven (a * 2 ^ (53 - l)) b div 2 ^ (53 - l)
         else roundHalfEven a (b * 2 ^ (l - 53)) * 2 ^ (l - 53))"

subsection \<open>Time formatting\<close>

text \<open>
  \<^verbatim>\<open>
  const formatTime = (totalSeconds: number): string => {
    const hours = Math.floor(totalSeconds / 3600);
    const minutes = Math.floor((totalSeconds % 3600) / 60);
    const seconds = totalSeconds % 60;
    return [hours, minutes, seconds]
      .map(v => v.toString().padStart(2, '0'))
      .join(':');
  };
  \<close>
  The string operations of the JavaScript library are written out: \<open>padStart\<close> is
  \<^verbatim>\<open>String.prototype.padStart(targetLength, padString)\<close>, \<open>join\<close> is
  \<^verbatim>\<open>Array.prototype.join(separator)\<close> and \<open>toString\<close> is \<^verbatim>\<open>Number.prototype.toString\<close> on
  a non-negative integer.

  \<^verbatim>\<open>Number.prototype.toString\<close> prints the shortest string of decimal digits \<open>s\<close> that,
  followed by zeros up to the size of the number, reads back as the same double; of two
  such strings of the same length, the nearer to the number, and the even one if they
  are as near. \<open>shortest d z\<close> looks for \<open>s\<close> with \<open>z\<close> zeros after it, then with
  \<open>z - 1\<close>, down to none, where \<open>s\<close> is the number \<open>d\<close> itself; it is started with one
  digit for \<open>s\<close>. The candidates with \<open>z\<close> zeros are the multiple of \<open>10 ^ z\<close> below
  \<open>d\<close> and the one above. A number of at most 21 digits is printed as \<open>s\<close> and its zeros,
  a longer one in exponent form (\<^verbatim>\<open>1.1805916207174113e+21\<close>). \<open>decimal n\<close> is all the
  decimal digits of \<open>n\<close>, no leading zero, \<^verbatim>\<open>"0"\<close> for zero; below \<open>2 ^ 53\<close> it is what
  \<open>toString\<close> prints.
\<close>

definition digitChar :: "nat \<Rightarrow> char" where
  "digitChar d = ''0123456789'' ! d"

fun decimal :: "nat \<Rightarrow> string" where
  "decimal n =
     (if n < 10 then [digitChar n] else decimal (n div 10) @ [digitChar (n mod 10)])"

declare decimal.simps [simp del]

fun shortest :: "nat \<Rightarrow> nat \<Rightarrow> nat \<times> nat" where
  "shortest d 0 = (d, 0)"
| "shortest d (Suc z) =
     (let p = 10 ^ Suc z; lo = d div p; r = d mod p;
          down = (roundDouble (lo * p) = d);
          up = (roundDouble ((lo + 1) * p) = d)
      in if down \<and> (\<not> up \<or> 2 * r < p \<or> (2 * r = p \<and> even lo)) then (lo, Suc z)
         else if up then (lo + 1, Suc z)
         else shortest d z)"

text \<open>
  The digits of \<open>s\<close> in exponent form. \<open>s\<close> ends in a zero only when the candidate above
  was a power of ten, which is then printed as \<^verbatim>\<open>1\<close>.
\<close>

definition significand :: "nat \<Rightarrow> string" where
  "significand s = rev (dropWhile (\<lambda>c. c = CHR ''0'') (rev (decimal s)))"

definition toString :: "nat \<Rightarrow> string" where
  "toString d =
     (case shortest d (length (decimal d) - 1) of
        (s, z) \<Rightarrow>
          let n = length (decimal s) + z
          in if n \<le> 21 then decimal s @ replicate z CHR ''0''
             else (case significand s of
                     [] \<Rightarrow> []
                   | [c] \<Rightarrow> [c]
                   | c # cs \<Rightarrow> c # CHR ''.'' # cs) @ ''e+'' @ decimal (n - 1))"

definition padStart :: "nat \<Rightarrow> string \<Rightarrow> string \<Rightarrow> string" where
  "padStart targetLength padString s =
     (if targetLength \<le> length s \<or> padString = [] then s
      else take (targetLength - length s)
             (concat (replicate (targetLength - length s) padString)) @ s)"

fun join :: "string \<Rightarrow> string list \<Rightarrow> string" where
  "join sep [] = []"
| "join sep [x] = x"
| "join sep (x # y # ys) = x @ sep @ join sep (y # ys)"

definition formatTime :: "nat \<Rightarrow> string" where
  "formatTime totalSeconds =
     (let hours = floorDiv totalSeconds 3600;
          minutes = floorDiv (totalSeconds mod 3600) 60;
          seconds = totalSeconds mod 60
      in join '':'' (map (\<lambda>v. padStart 2 ''0'' (toString v)) [hours, minutes, seconds]))"

text \<open>
  Reading a rendered component back: a component is a string of decimal digits, and
  \<open>digitsValue\<close> is the number it denotes (leading zeros allowed). These two are
  the yardstick the formatted string is measured against, not part of the program.
\<close>

definition isDigit :: "char \<Rightarrow> bool" where
  "isDigit c = (c \<in> set ''0123456789'')"

definition digitVal :: "char \<Rightarrow> nat" where
  "digitVal c = of_char c - 48"

definition digitsValue :: "string \<Rightarrow> nat" where
  "digitsValue s = foldl (\<lambda>a c. 10 * a + digitVal c) 0 s"

subsection \<open>Tasks and the picture-in-picture window\<close>

text \<open>
  \<^verbatim>\<open>
  type Task = {
    id: string; name: string; impact: number; effort: number; deadline: string;
    status: 'todo' | 'inprogress' | 'done';
    timeSpent: number; // in seconds
    distractionTime: number; // in seconds
  };
  \<close>
  The field \<^verbatim>\<open>id\<close> is written \<open>id'\<close>, since \<open>id\<close> is the identity function of HOL. The
  numbers are naturals, read as in the subsection on numbers.
\<close>

datatype Status = Todo | Inprogress | Done

record Task =
  id' :: string
  name :: string
  impact :: nat
  effort :: nat
  deadline :: string
  status :: Status
  timeSpent :: nat
  distractionTime :: nat

text \<open>
  What the timer touches of the picture-in-picture \<^verbatim>\<open>Window\<close>: its \<^verbatim>\<open>closed\<close> flag, the
  three elements it looks up with \<^verbatim>\<open>document.getElementById\<close>, and the \<^verbatim>\<open>distraction\<close> class of
  the body. An element is \<open>None\<close> when \<^verbatim>\<open>getElementById\<close> returns \<^verbatim>\<open>null\<close>; otherwise
  \<open>timerDisplay\<close> and \<open>distractionTimeEl\<close> hold the element's \<^verbatim>\<open>textContent\<close> and
  \<open>distractionLabel\<close> holds its \<^verbatim>\<open>style.display\<close>. The type of \<^verbatim>\<open>Window.document\<close> is not
  nullable, so the document itself is always there.
\<close>

record Window =
  closed :: bool
  timerDisplay :: "string option"
  distractionLabel :: "string option"
  distractionTimeEl :: "string option"
  distractionClass :: bool

subsection \<open>The tick\<close>

text \<open>
  The body of the updater passed to \<^verbatim>\<open>setTasks\<close> by the interval callback, the same in
  the three versions but for the guard on the window
  (\<^verbatim>\<open>src/index.tsx\<close> 287 to 308 and 766 to 786, \<^verbatim>\<open>src/unnamed/part_000\<close> 215 to 235):
  \<^verbatim>\<open>
  currentTasks.map(t => {
    if (t.id === timedTaskId) {
      const newTimeSpent = isDistracted ? t.timeSpent : t.timeSpent + 1;
      const newDistractionTime = isDistracted ? t.distractionTime + 1 : t.distractionTime;
      if (pipWindowRef.current && !pipWindowRef.current.closed) {   // widget version only
        const timerDisplay = ....document.getElementById('timer-display');
        if (timerDisplay) timerDisplay.textContent = formatTime(newTimeSpent);
        const distractionLabel = ....document.getElementById('distraction-label');
        const distractionTimeEl = ....document.getElementById('distraction-time');
        if (distractionLabel && distractionTimeEl) {
          distractionLabel.style.display = newDistractionTime > 0 ? 'block' : 'none';
          distractionTimeEl.textContent = formatTime(newDistractionTime);
        }
      }
      return { ...t, timeSpent: newTimeSpent, distractionTime: newDistractionTime };
    }
    return t;
  })
  \<close>
  The widget version reads the flag from the React state \<^verbatim>\<open>isDistracted\<close> captured by the
  callback and the window from \<^verbatim>\<open>pipWindowRef.current\<close>; the other two read
  \<^verbatim>\<open>isDistractedRef.current\<close> and write to the window \<^verbatim>\<open>pipWindow\<close> that the callback
  captured, without looking at \<^verbatim>\<open>closed\<close>. The rendering is a side effect of the map, so the
  model threads the window through the list. The \<^verbatim>\<open>+ 1\<close> is the addition of doubles,
  \<open>addDouble\<close>.
\<close>

definition newTimeSpent :: "bool \<Rightarrow> Task \<Rightarrow> nat" where
  "newTimeSpent isDistracted t =
     (if isDistracted then timeSpent t else addDouble (timeSpent t) 1)"

definition newDistractionTime :: "bool \<Rightarrow> Task \<Rightarrow> nat" where
  "newDistractionTime isDistracted t =
     (if isDistracted then addDouble (distractionTime t) 1 else distractionTime t)"

definition renderTick :: "nat \<Rightarrow> nat \<Rightarrow> Window \<Rightarrow> Window" where
  "renderTick spent distraction w =
     (let w1 = (case timerDisplay w of
                  None \<Rightarrow> w
                | Some _ \<Rightarrow> w\<lparr>timerDisplay := Some (formatTime spent)\<rparr>)
      in case distractionLabel w1 of
           None \<Rightarrow> w1
         | Some _ \<Rightarrow>
             (case distractionTimeEl w1 of
                None \<Rightarrow> w1
              | Some _ \<Rightarrow>
                  w1\<lparr>distractionLabel := Some (if 0 < distraction then ''block'' else ''none''),
                     distractionTimeEl := Some (formatTime distraction)\<rparr>))"

fun tickUpdater_widget ::
  "string \<Rightarrow> bool \<Rightarrow> Window option \<Rightarrow> Task list \<Rightarrow> Task list \<times> Window option" where
  "tickUpdater_widget timedTaskId isDistracted pip [] = ([], pip)"
| "tickUpdater_widget timedTaskId isDistracted pip (t # ts) =
     (if id' t = timedTaskId then
        (let pip' = (case pip of
                       None \<Rightarrow> None
                     | Some w \<Rightarrow>
                         if closed w then Some w
                         else Some (renderTick (newTimeSpent isDistracted t)
                                      (newDistractionTime isDistracted t) w));
             t' = t\<lparr>timeSpent := newTimeSpent isDistracted t,
                    distractionTime := newDistractionTime isDistracted t\<rparr>
         in case tickUpdater_widget timedTaskId isDistracted pip' ts of
              (ts', pip'') \<Rightarrow> (t' # ts', pip''))
      else
        (case tickUpdater_widget timedTaskId isDistracted pip ts of
           (ts', pip'') \<Rightarrow> (t # ts', pip'')))"

fun tickUpdater ::
  "string \<Rightarrow> bool \<Rightarrow> Window \<Rightarrow> Task list \<Rightarrow> Task list \<times> Window" where
  "tickUpdater timedTaskId isDistracted pipWindow [] = ([], pipWindow)"
| "tickUpdater timedTaskId isDistracted pipWindow (t # ts) =
     (if id' t = timedTaskId then
        (let pipWindow' = renderTick (newTimeSpent isDistracted t)
                            (newDistractionTime isDistracted t) pipWindow;
             t' = t\<lparr>timeSpent := newTimeSpent isDistracted t,
                    distractionTime := newDistractionTime isDistracted t\<rparr>
         in case tickUpdater timedTaskId isDistracted pipWindow' ts of
              (ts', pipWindow'') \<Rightarrow> (t' # ts', pipWindow''))
      else
        (case tickUpdater timedTaskId isDistracted pipWindow ts of
           (ts', pipWindow'') \<Rightarrow> (t # ts', pipWindow'')))"


text \<open>
  A run of ticks, one per clock pulse, each with the distraction flag read at that
  tick.
\<close>

fun ticks_widget ::
  "string \<Rightarrow> bool list \<Rightarrow> Window option \<Rightarrow> Task list \<Rightarrow> Task list \<times> Window option" where
  "ticks_widget timedTaskId [] pip ts = (ts, pip)"
| "ticks_widget timedTaskId (d # ds) pip ts =
     (case tickUpdater_widget timedTaskId d pip ts of
        (ts', pip') \<Rightarrow> ticks_widget timedTaskId ds pip' ts')"

fun ticks ::
  "string \<Rightarrow> bool list \<Rightarrow> Window \<Rightarrow> Task list \<Rightarrow> Task list \<times> Window" where
  "ticks timedTaskId [] pipWindow ts = (ts, pipWindow)"
| "ticks timedTaskId (d # ds) pipWindow ts =
     (case tickUpdater timedTaskId d pipWindow ts of
        (ts', pipWindow') \<Rightarrow> ticks timedTaskId ds pipWindow' ts')"

subsection \<open>The state of the component and of the browser\<close>

text \<open>
  \<^verbatim>\<open>window.setInterval\<close> returns a handle that is a positive integer, so the test
  \<^verbatim>\<open>if (timerIntervalRef.current)\<close> of the source is a test against \<^verbatim>\<open>null\<close>; handles are kept
  opaque. A registered interval holds the closure of its callback: \<open>WidgetTick\<close> is the
  callback of the widget version, which captured \<^verbatim>\<open>timedTaskId\<close> and \<^verbatim>\<open>isDistracted\<close>;
  \<open>RefTick\<close> is the callback of the other two versions, which captured \<^verbatim>\<open>timedTaskId\<close> and
  the window \<^verbatim>\<open>pipWindow\<close>.
\<close>

datatype IntervalId = IntervalId nat

datatype TickClosure = WidgetTick string bool | RefTick string nat

text \<open>
  How \<^verbatim>\<open>window.documentPictureInPicture.requestWindow\<close> ends: the API is missing
  (\<^verbatim>\<open>!('documentPictureInPicture' in window)\<close>), the request fails (the promise is
  rejected, as when permission is refused, or the call throws), or it resolves with a new
  window. The statements that follow a resolved request are taken not to throw.
\<close>

datatype Acquire = Unsupported | Rejected | Opened

text \<open>
  What a start request reports. The source reports through \<^verbatim>\<open>alert\<close> and
  \<^verbatim>\<open>console.error\<close>; the names are those of the specification:
  \<open>AlreadyActive\<close> is \<^verbatim>\<open>alert("Another timer is already running. Please stop it first.")\<close>,
  \<open>NoSuchTask\<close> the silent \<^verbatim>\<open>if (!task) return\<close>, \<open>SurfaceUnavailable\<close> the alerts and
  console errors of a failed acquisition, \<open>Acquiring\<close> the return of the effect-acquire
  \<^verbatim>\<open>handleStartTimer\<close> (the effect acquires the window afterwards) and \<open>Started\<close> the
  normal end.
\<close>

datatype StartOutcome = AlreadyActive | NoSuchTask | SurfaceUnavailable | Acquiring | Started

text \<open>
  The state: the React state (\<open>tasks\<close>, \<open>timedTaskId\<close>, and \<open>isDistracted\<close> in the widget
  version), the refs (\<open>pipWindowRef\<close>, \<open>timerIntervalRef\<close>, and \<open>isDistractedRef\<close> in the
  other two versions), and what the browser holds: the window objects, by address
  (\<open>pipWindowRef\<close> and the \<open>RefTick\<close> closures hold addresses, since the source shares one
  object between them), and the registered intervals. \<open>tasksVersion\<close> counts the calls of
  \<^verbatim>\<open>setTasks\<close>: every call installs a new array, and React compares effect dependencies
  by identity. \<open>timerDeps\<close>, \<open>timerHasCleanup\<close> and \<open>renderDeps\<close> are React's record of the
  last run of the two effects of the widget version: the dependency values they ran with,
  and whether the timer effect returned a cleanup function.
\<close>

record App =
  tasks :: "Task list"
  tasksVersion :: nat
  timedTaskId :: "string option"
  isDistracted :: bool
  isDistractedRef :: bool
  pipWindowRef :: "nat option"
  timerIntervalRef :: "IntervalId option"
  windows :: "nat \<Rightarrow> Window"
  nextWindow :: nat
  intervals :: "(IntervalId \<times> TickClosure) list"
  nextIntervalId :: nat
  timerDeps :: "string option \<times> bool"
  timerHasCleanup :: bool
  renderDeps :: "string option \<times> nat"

text \<open>
  JavaScript truthiness of a \<^verbatim>\<open>string | null\<close>: \<^verbatim>\<open>null\<close> and the empty string are falsy.
  The source never compares \<^verbatim>\<open>timedTaskId\<close> with \<^verbatim>\<open>null\<close>; it tests its truthiness
  (\<^verbatim>\<open>if (timedTaskId)\<close>, \<^verbatim>\<open>if (!timedTaskId)\<close>).
\<close>

definition truthy :: "string option \<Rightarrow> bool" where
  "truthy v = (case v of None \<Rightarrow> False | Some x \<Rightarrow> x \<noteq> [])"

text \<open>The state \<open>Idle\<close> of the specification: no timed task, no window, no interval handle.\<close>

definition idle :: "App \<Rightarrow> bool" where
  "idle s = (timedTaskId s = None \<and> pipWindowRef s = None \<and> timerIntervalRef s = None)"

text \<open>
  The browser's side: \<^verbatim>\<open>clearInterval\<close>, \<^verbatim>\<open>setInterval\<close>, \<^verbatim>\<open>Window.close\<close> (after which
  \<^verbatim>\<open>closed\<close> reads \<^verbatim>\<open>true\<close>) and a resolved \<^verbatim>\<open>requestWindow\<close>, which returns a fresh
  window with an empty document.
\<close>

definition clearInterval :: "IntervalId \<Rightarrow> App \<Rightarrow> App" where
  "clearInterval h s = s\<lparr>intervals := filter (\<lambda>e. fst e \<noteq> h) (intervals s)\<rparr>"

definition setInterval :: "TickClosure \<Rightarrow> App \<Rightarrow> IntervalId \<times> App" where
  "setInterval cl s =
     (let h = IntervalId (nextIntervalId s)
      in (h, s\<lparr>intervals := intervals s @ [(h, cl)], nextIntervalId := Suc (nextIntervalId s)\<rparr>))"

definition closeWindow :: "nat \<Rightarrow> App \<Rightarrow> App" where
  "closeWindow p s = s\<lparr>windows := (windows s)(p := (windows s p)\<lparr>closed := True\<rparr>)\<rparr>"

definition emptyWindow :: Window where
  "emptyWindow = \<lparr>closed = False, timerDisplay = None, distractionLabel = None,
                   distractionTimeEl = None, distractionClass = False\<rparr>"

definition requestWindow :: "App \<Rightarrow> nat \<times> App" where
  "requestWindow s =
     (let p = nextWindow s
      in (p, s\<lparr>windows := (windows s)(p := emptyWindow), nextWindow := Suc p\<rparr>))"

text \<open>
  The timer view that the three versions write into the body of the window:
  \<^verbatim>\<open>
  <p id="task-name">${task.name}</p>
  <h1 id="timer-display">${formatTime(task.timeSpent)}</h1>
  <p id="distraction-label" style="display: none;">Distraction:
     <span id="distraction-time">00:00:00</span></p>
  \<close>
  and the emptied body, which has none of the three elements.
\<close>

definition timerView :: "Task \<Rightarrow> Window \<Rightarrow> Window" where
  "timerView task w =
     w\<lparr>timerDisplay := Some (formatTime (timeSpent task)),
       distractionLabel := Some ''none'',
       distractionTimeEl := Some ''00:00:00''\<rparr>"

definition clearBody :: "Window \<Rightarrow> Window" where
  "clearBody w = w\<lparr>timerDisplay := None, distractionLabel := None, distractionTimeEl := None\<rparr>"

definition setTasks :: "Task list \<Rightarrow> App \<Rightarrow> App" where
  "setTasks ts s = s\<lparr>tasks := ts, tasksVersion := Suc (tasksVersion s)\<rparr>"

text \<open>
  The interval callback calls \<^verbatim>\<open>setTasks\<close> with the updater above; a clock pulse runs the
  callback of every registered interval.
\<close>

definition intervalCallback :: "TickClosure \<Rightarrow> App \<Rightarrow> App" where
  "intervalCallback cl s =
     (case cl of
        WidgetTick tid d \<Rightarrow>
          (case tickUpdater_widget tid d (map_option (windows s) (pipWindowRef s)) (tasks s) of
             (ts, pip) \<Rightarrow>
               (setTasks ts s)
                 \<lparr>windows := (case pipWindowRef s of
                                None \<Rightarrow> windows s
                              | Some p \<Rightarrow> (case pip of
                                            None \<Rightarrow> windows s
                                          | Some w \<Rightarrow> (windows s)(p := w)))\<rparr>)
      | RefTick tid p \<Rightarrow>
          (case tickUpdater tid (isDistractedRef s) (windows s p) (tasks s) of
             (ts, w) \<Rightarrow> (setTasks ts s)\<lparr>windows := (windows s)(p := w)\<rparr>))"

definition clockPulse :: "App \<Rightarrow> App" where
  "clockPulse s = foldl (\<lambda>s' e. intervalCallback (snd e) s') s (intervals s)"

subsection \<open>The widget version\<close>

text \<open>
  \<^verbatim>\<open>src/index.tsx\<close> 155 to 165:
  \<^verbatim>\<open>
  const handleStopTimer = useCallback(() => {
      if (timerIntervalRef.current) {
          clearInterval(timerIntervalRef.current);
          timerIntervalRef.current = null;
      }
      if (pipWindowRef.current && !pipWindowRef.current.closed) {
          pipWindowRef.current.close();
      }
      pipWindowRef.current = null;
      setTimedTaskId(null);
  }, []);
  \<close>
\<close>

definition handleStopTimer_widget :: "App \<Rightarrow> App" where
  "handleStopTimer_widget s =
     (let s1 = (case timerIntervalRef s of
                  None \<Rightarrow> s
                | Some h \<Rightarrow> (clearInterval h s)\<lparr>timerIntervalRef := None\<rparr>);
          s2 = (case pipWindowRef s1 of
                  None \<Rightarrow> s1
                | Some p \<Rightarrow> if closed (windows s1 p) then s1 else closeWindow p s1)
      in s2\<lparr>pipWindowRef := None, timedTaskId := None\<rparr>)"

text \<open>
  \<^verbatim>\<open>renderWidgetContent\<close> (167 to 216) does nothing without an open window; otherwise it
  empties the body and, when a task is timed and found, writes the timer view. The list
  of the top three tasks that it writes otherwise has none of the three timer elements
  and is not modelled further.
\<close>

definition renderWidgetContent :: "App \<Rightarrow> App" where
  "renderWidgetContent s =
     (case pipWindowRef s of
        None \<Rightarrow> s
      | Some p \<Rightarrow>
          if closed (windows s p) then s
          else
            (let w = clearBody (windows s p)
             in if truthy (timedTaskId s) then
                  (case find (\<lambda>t. Some (id' t) = timedTaskId s) (tasks s) of
                     None \<Rightarrow> s\<lparr>windows := (windows s)(p := w)\<rparr>
                   | Some task \<Rightarrow> s\<lparr>windows := (windows s)(p := timerView task w)\<rparr>)
                else s\<lparr>windows := (windows s)(p := w)\<rparr>))"

text \<open>
  \<^verbatim>\<open>handleOpenWidget\<close> (225 to 279): focus an open widget; refuse while a task is timed or
  when the API is missing; otherwise request the window, keep it in \<^verbatim>\<open>pipWindowRef\<close>,
  render, and set \<^verbatim>\<open>isDistracted\<close> from \<^verbatim>\<open>document.visibilityState === 'hidden'\<close> (the
  second argument). The messages it stores in \<^verbatim>\<open>widgetError\<close> are left out. The call is
  taken as one step: nothing else runs while it awaits the window.
\<close>

definition handleOpenWidget :: "Acquire \<Rightarrow> bool \<Rightarrow> App \<Rightarrow> App" where
  "handleOpenWidget acq hidden s =
     (if (case pipWindowRef s of None \<Rightarrow> False | Some p \<Rightarrow> \<not> closed (windows s p)) then s
      else if truthy (timedTaskId s) then s
      else case acq of
             Unsupported \<Rightarrow> s
           | Rejected \<Rightarrow> s
           | Opened \<Rightarrow>
               (case requestWindow s of
                  (p, s1) \<Rightarrow> (renderWidgetContent (s1\<lparr>pipWindowRef := Some p\<rparr>))
                                \<lparr>isDistracted := hidden\<rparr>))"

text \<open>
  The timer effect (282 to 316), with dependencies \<^verbatim>\<open>[timedTaskId, isDistracted]\<close>:
  \<^verbatim>\<open>
  useEffect(() => {
    if (!timedTaskId) return;
    timerIntervalRef.current = window.setInterval(() => { setTasks(...) }, 1000);
    return () => {
      if (timerIntervalRef.current) { clearInterval(timerIntervalRef.current); }
    };
  }, [timedTaskId, isDistracted]);
  \<close>
\<close>

definition timerEffect_cleanup :: "App \<Rightarrow> App" where
  "timerEffect_cleanup s =
     (case timerIntervalRef s of None \<Rightarrow> s | Some h \<Rightarrow> clearInterval h s)"

definition timerEffect :: "App \<Rightarrow> App" where
  "timerEffect s =
     (case timedTaskId s of
        None \<Rightarrow> s\<lparr>timerHasCleanup := False\<rparr>
      | Some tid \<Rightarrow>
          if tid = [] then s\<lparr>timerHasCleanup := False\<rparr>
          else
            (case setInterval (WidgetTick tid (isDistracted s)) s of
               (h, s1) \<Rightarrow> s1\<lparr>timerIntervalRef := Some h, timerHasCleanup := True\<rparr>))"

text \<open>
  What React does after an event handler has returned: every effect whose dependencies
  changed is run again, the cleanups first. The render effect (219 to 222) runs
  \<^verbatim>\<open>renderWidgetContent\<close> when \<^verbatim>\<open>timedTaskId\<close> or the task array changed; the timer effect is
  the one above. The third effect (318 to 341) has constant dependencies and runs once.
\<close>

definition commit_widget :: "App \<Rightarrow> App" where
  "commit_widget s =
     (let timerChanged = (timerDeps s \<noteq> (timedTaskId s, isDistracted s));
          renderChanged = (renderDeps s \<noteq> (timedTaskId s, tasksVersion s));
          s1 = (if timerChanged \<and> timerHasCleanup s then timerEffect_cleanup s else s);
          s2 = (if renderChanged
                then (renderWidgetContent s1)\<lparr>renderDeps := (timedTaskId s, tasksVersion s)\<rparr>
                else s1)
      in if timerChanged
         then (timerEffect s2)\<lparr>timerDeps := (timedTaskId s, isDistracted s)\<rparr>
         else s2)"

text \<open>
  The third effect installs \<^verbatim>\<open>handleVisibilityChange\<close> and polls twice a second for a
  window that was closed by hand (320 to 335):
  \<^verbatim>\<open>
  const checkPipClosedInterval = setInterval(() => {
    if (pipWindowRef.current && pipWindowRef.current.closed) { handleStopTimer(); }
  }, 500);
  \<close>
\<close>

definition checkPipClosedInterval :: "App \<Rightarrow> App" where
  "checkPipClosedInterval s =
     (case pipWindowRef s of
        None \<Rightarrow> s
      | Some p \<Rightarrow> if closed (windows s p) then handleStopTimer_widget s else s)"

definition handleVisibilityChange_widget :: "bool \<Rightarrow> App \<Rightarrow> App" where
  "handleVisibilityChange_widget hidden s =
     (let s1 = s\<lparr>isDistracted := hidden\<rparr>
      in case pipWindowRef s1 of
           None \<Rightarrow> s1
         | Some p \<Rightarrow>
             if closed (windows s1 p) then s1
             else s1\<lparr>windows := (windows s1)(p := (windows s1 p)\<lparr>distractionClass := hidden\<rparr>)\<rparr>)"

text \<open>
  The events of the widget version and their handlers: the button that opens the
  widget; a start button inside the widget (\<^verbatim>\<open>startButton.onclick\<close>, line 204, which is
  \<^verbatim>\<open>setTimedTaskId(task.id)\<close>); the \<^verbatim>\<open>pagehide\<close> listener of the window (268 to 270, which
  is \<^verbatim>\<open>handleStopTimer()\<close>); the poll; a visibility change; a clock pulse; the user closing
  the window; and any replacement of the task array (\<^verbatim>\<open>addTask\<close>, the import).
  A step is the handler followed by React's commit. The start button is drawn only
  while no task is timed; its handler has no guard of its own, and the model lets it run
  in any state, which only adds behaviours.
\<close>

datatype Event =
    OpenWidget Acquire bool
  | StartButton string
  | PageHide
  | CheckPipClosed
  | VisibilityChange bool
  | ClockPulse
  | UserClosesWindow
  | ReplaceTasks "Task list"

definition handler_widget :: "Event \<Rightarrow> App \<Rightarrow> App" where
  "handler_widget e s =
     (case e of
        OpenWidget acq hidden \<Rightarrow> handleOpenWidget acq hidden s
      | StartButton taskId \<Rightarrow> s\<lparr>timedTaskId := Some taskId\<rparr>
      | PageHide \<Rightarrow> handleStopTimer_widget s
      | CheckPipClosed \<Rightarrow> checkPipClosedInterval s
      | VisibilityChange hidden \<Rightarrow> handleVisibilityChange_widget hidden s
      | ClockPulse \<Rightarrow> clockPulse s
      | UserClosesWindow \<Rightarrow>
          (case pipWindowRef s of None \<Rightarrow> s | Some p \<Rightarrow> closeWindow p s)
      | ReplaceTasks ts \<Rightarrow> setTasks ts s)"

definition step_widget :: "Event \<Rightarrow> App \<Rightarrow> App" where
  "step_widget e s = commit_widget (handler_widget e s)"

fun run_widget :: "Event list \<Rightarrow> App \<Rightarrow> App" where
  "run_widget [] s = s"
| "run_widget (e # es) s = run_widget es (step_widget e s)"

text \<open>The component after mounting: no task, nothing timed, no window, no interval.\<close>

definition initialApp :: App where
  "initialApp =
     \<lparr>tasks = [], tasksVersion = 0, timedTaskId = None, isDistracted = False,
      isDistractedRef = False, pipWindowRef = None, timerIntervalRef = None,
      windows = (\<lambda>p. emptyWindow), nextWindow = 0, intervals = [], nextIntervalId = 1,
      timerDeps = (None, False), timerHasCleanup = False, renderDeps = (None, 0)\<rparr>"

text \<open>
  The invariant of the widget version: React's record of the timer effect is up to
  date, and the registered intervals are exactly what \<^verbatim>\<open>timedTaskId\<close> asks for: none when
  it is falsy, and otherwise the single interval held in \<^verbatim>\<open>timerIntervalRef\<close>, whose
  callback captured the current \<^verbatim>\<open>timedTaskId\<close> and \<^verbatim>\<open>isDistracted\<close>.
  \<open>pre_commit\<close> is what holds between a handler and the commit that follows it.
\<close>

definition inv_widget :: "App \<Rightarrow> bool" where
  "inv_widget s =
     (timerDeps s = (timedTaskId s, isDistracted s)
      \<and> (case timedTaskId s of
            None \<Rightarrow> intervals s = [] \<and> \<not> timerHasCleanup s
          | Some tid \<Rightarrow>
              if tid = [] then intervals s = [] \<and> \<not> timerHasCleanup s
              else timerHasCleanup s
                   \<and> (case timerIntervalRef s of
                          None \<Rightarrow> False
                        | Some h \<Rightarrow> intervals s = [(h, WidgetTick tid (isDistracted s))])))"

definition pre_commit :: "App \<Rightarrow> bool" where
  "pre_commit x =
     (if timerDeps x = (timedTaskId x, isDistracted x) then inv_widget x
      else if timerHasCleanup x
           then (case timerIntervalRef x of
                   None \<Rightarrow> intervals x = []
                 | Some h \<Rightarrow> list_all (\<lambda>e. fst e = h) (intervals x))
           else intervals x = [])"

subsection \<open>The async-start and effect-acquire versions\<close>

text \<open>
  \<^verbatim>\<open>src/index.tsx\<close> 685 to 695 and \<^verbatim>\<open>src/unnamed/part_000\<close> 155 to 165, the same text:
  \<^verbatim>\<open>
  const handleStopTimer = useCallback(() => {
      if (timerIntervalRef.current) {
          clearInterval(timerIntervalRef.current);
          timerIntervalRef.current = null;
      }
      if (pipWindowRef.current) {
          pipWindowRef.current.close();
          pipWindowRef.current = null;
      }
      setTimedTaskId(null);
  }, []);
  \<close>
  The \<^verbatim>\<open>pagehide\<close> listener that both versions put on the window is
  \<^verbatim>\<open>() => { handleStopTimer(); }\<close>, and the cleanup of their effect removes the visibility
  listener (which the model does not register) and calls \<^verbatim>\<open>handleStopTimer()\<close>.
\<close>

definition handleStopTimer :: "App \<Rightarrow> App" where
  "handleStopTimer s =
     (let s1 = (case timerIntervalRef s of
                  None \<Rightarrow> s
                | Some h \<Rightarrow> (clearInterval h s)\<lparr>timerIntervalRef := None\<rparr>);
          s2 = (case pipWindowRef s1 of
                  None \<Rightarrow> s1
                | Some p \<Rightarrow> (closeWindow p s1)\<lparr>pipWindowRef := None\<rparr>)
      in s2\<lparr>timedTaskId := None\<rparr>)"

definition pagehide :: "App \<Rightarrow> App" where
  "pagehide s = handleStopTimer s"

definition effectCleanup :: "App \<Rightarrow> App" where
  "effectCleanup s = handleStopTimer s"

definition handleVisibilityChange :: "bool \<Rightarrow> App \<Rightarrow> App" where
  "handleVisibilityChange hidden s =
     (let s1 = s\<lparr>isDistractedRef := hidden\<rparr>
      in case pipWindowRef s1 of
           None \<Rightarrow> s1
         | Some p \<Rightarrow>
             s1\<lparr>windows := (windows s1)(p := (windows s1 p)\<lparr>distractionClass := hidden\<rparr>)\<rparr>)"

text \<open>
  The async-start \<^verbatim>\<open>handleStartTimer\<close> (\<^verbatim>\<open>src/index.tsx\<close> 697 to 755):
  \<^verbatim>\<open>
  const handleStartTimer = async (taskId: string) => {
    if (timedTaskId) { alert("Another timer is already running. ..."); return; }
    const task = tasks.find(t => t.id === taskId);
    if (!task) return;
    if (!('documentPictureInPicture' in window)) { alert('... not supported ...'); return; }
    try {
        const pipWindow = await window.documentPictureInPicture.requestWindow({...});
        pipWindowRef.current = pipWindow;
        ...
        pipWindow.document.body.innerHTML = `...`;
        pipWindow.addEventListener('pagehide', () => { handleStopTimer(); });
        setTimedTaskId(taskId);
    } catch (error) {
        console.error("Failed to open PiP window:", error);
        ...
        alert(message);
        setTimedTaskId(null);
    }
  };
  \<close>
  \<open>handleStartTimer_resume\<close> is what runs once the awaited promise is settled, on the state
  of that moment; \<open>handleStartTimer_async\<close> is the whole call when nothing else runs in
  between.
\<close>

definition handleStartTimer_resume ::
  "string \<Rightarrow> Task \<Rightarrow> bool \<Rightarrow> App \<Rightarrow> StartOutcome \<times> App" where
  "handleStartTimer_resume taskId task resolved s =
     (if resolved then
        (case requestWindow s of
           (p, s1) \<Rightarrow>
             (Started,
              s1\<lparr>pipWindowRef := Some p,
                 windows := (windows s1)(p := timerView task (windows s1 p)),
                 timedTaskId := Some taskId\<rparr>))
      else (SurfaceUnavailable, s\<lparr>timedTaskId := None\<rparr>))"

definition handleStartTimer_async :: "string \<Rightarrow> Acquire \<Rightarrow> App \<Rightarrow> StartOutcome \<times> App" where
  "handleStartTimer_async taskId acq s =
     (if truthy (timedTaskId s) then (AlreadyActive, s)
      else case find (\<lambda>t. id' t = taskId) (tasks s) of
             None \<Rightarrow> (NoSuchTask, s)
           | Some task \<Rightarrow>
               (case acq of
                  Unsupported \<Rightarrow> (SurfaceUnavailable, s)
                | Rejected \<Rightarrow> handleStartTimer_resume taskId task False s
                | Opened \<Rightarrow> handleStartTimer_resume taskId task True s))"

text \<open>
  The body of the async-start effect (\<^verbatim>\<open>src/index.tsx\<close> 758 to 787): with a timed task
  and a window, it registers the interval whose callback captured both.
\<close>

definition timerEffect_async :: "App \<Rightarrow> App" where
  "timerEffect_async s =
     (case timedTaskId s of
        None \<Rightarrow> s
      | Some tid \<Rightarrow>
          if tid = [] then s
          else
            (case pipWindowRef s of
               None \<Rightarrow> s
             | Some p \<Rightarrow>
                 (case setInterval (RefTick tid p) s of
                    (h, s1) \<Rightarrow> s1\<lparr>timerIntervalRef := Some h\<rparr>)))"

text \<open>
  The effect-acquire version (\<^verbatim>\<open>src/unnamed/part_000\<close> 147 to 153 and 176 to 242):
  \<^verbatim>\<open>
  const handleStartTimer = (taskId: string) => {
    if (timedTaskId) { alert("Another timer is already running. ..."); return; }
    setTimedTaskId(taskId);
  };
  const openPipWindow = async () => {
      if (!('documentPictureInPicture' in window)) {
          alert('Picture-in-Picture is not supported by your browser.');
          setTimedTaskId(null);
          return;
      }
      try {
          const pipWindow = await window.documentPictureInPicture.requestWindow({...});
          pipWindowRef.current = pipWindow;
          ...
          timerIntervalRef.current = window.setInterval(() => { setTasks(...) }, 1000);
      } catch (error) {
          console.error("Failed to open PiP window:", error);
          setTimedTaskId(null);
      }
  };
  \<close>
  \<open>openPipWindow\<close> takes the \<^verbatim>\<open>timedTaskId\<close> and the \<^verbatim>\<open>task\<close> that the effect captured.
\<close>

definition handleStartTimer_effect :: "string \<Rightarrow> App \<Rightarrow> StartOutcome \<times> App" where
  "handleStartTimer_effect taskId s =
     (if truthy (timedTaskId s) then (AlreadyActive, s)
      else (Acquiring, s\<lparr>timedTaskId := Some taskId\<rparr>))"

definition openPipWindow :: "string \<Rightarrow> Task \<Rightarrow> Acquire \<Rightarrow> App \<Rightarrow> StartOutcome \<times> App" where
  "openPipWindow tid task acq s =
     (case acq of
        Unsupported \<Rightarrow> (SurfaceUnavailable, s\<lparr>timedTaskId := None\<rparr>)
      | Rejected \<Rightarrow> (SurfaceUnavailable, s\<lparr>timedTaskId := None\<rparr>)
      | Opened \<Rightarrow>
          (case requestWindow s of
             (p, s1) \<Rightarrow>
               (case setInterval (RefTick tid p)
                       (s1\<lparr>pipWindowRef := Some p,
                           windows := (windows s1)(p := timerView task (windows s1 p))\<rparr>) of
                  (h, s2) \<Rightarrow> (Started, s2\<lparr>timerIntervalRef := Some h\<rparr>))))"

subsection \<open>Example data\<close>

definition exampleTask1 :: Task where
  "exampleTask1 =
     \<lparr>id' = ''task-1'', name = ''write'', impact = 5, effort = 5, deadline = ''2025-01-01'',
      status = Todo, timeSpent = 0, distractionTime = 0\<rparr>"

definition exampleTask2 :: Task where
  "exampleTask2 =
     \<lparr>id' = ''task-2'', name = ''read'', impact = 3, effort = 8, deadline = ''2025-02-01'',
      status = Inprogress, timeSpent = 40, distractionTime = 7\<rparr>"

definition saturatedTask :: Task where
  "saturatedTask =
     \<lparr>id' = ''task-3'', name = ''imported'', impact = 1, effort = 1, deadline = ''2025-03-01'',
      status = Todo, timeSpent = 2 ^ 53, distractionTime = 0\<rparr>"

definition emptyIdTask :: Task where
  "emptyIdTask =
     \<lparr>id' = [], name = ''imported'', impact = 1, effort = 1, deadline = ''2025-03-01'',
      status = Todo, timeSpent = 0, distractionTime = 0\<rparr>"

definition exampleWindow :: Window where
  "exampleWindow =
     \<lparr>closed = False, timerDisplay = Some ''00:00:00'', distractionLabel = Some ''none'',
      distractionTimeEl = Some ''00:00:00'', distractionClass = False\<rparr>"

text \<open>
  A widget session on the first task; the same session after the user closed the
  window; and the session after one tick and the replacement of the task array by one
  without the timed task.
\<close>

definition activeWidgetApp :: App where
  "activeWidgetApp =
     run_widget
       [OpenWidget Opened False, ReplaceTasks [exampleTask1, exampleTask2],
        StartButton ''task-1'']
       initialApp"

definition closedWidgetApp :: App where
  "closedWidgetApp =
     run_widget
       [OpenWidget Opened False, ReplaceTasks [exampleTask1, exampleTask2],
        StartButton ''task-1'', UserClosesWindow]
       initialApp"

definition missingTaskApp :: App where
  "missingTaskApp =
     run_widget
       [OpenWidget Opened False, ReplaceTasks [exampleTask1, exampleTask2],
        StartButton ''task-1'', ClockPulse, ReplaceTasks [exampleTask2]]
       initialApp"

text \<open>A widget session on the second task, which has time recorded before the session.\<close>

definition secondTaskSession :: App where
  "secondTaskSession =
     run_widget
       [OpenWidget Opened False, ReplaceTasks [exampleTask1, exampleTask2],
        StartButton ''task-2'']
       initialApp"

text \<open>
  Sessions of the other two versions: the effect-acquire version after a start and a
  resolved acquisition; the async-start version after a start and its effect; and the
  async-start version after a start on a task whose id is the empty string.
\<close>

definition activeEffectApp :: App where
  "activeEffectApp =
     snd (openPipWindow ''task-1'' exampleTask1 Opened
            (snd (handleStartTimer_effect ''task-1''
                    (initialApp\<lparr>tasks := [exampleTask1, exampleTask2]\<rparr>))))"

definition activeAsyncApp :: App where
  "activeAsyncApp =
     timerEffect_async
       (snd (handleStartTimer_async ''task-1'' Opened
               (initialApp\<lparr>tasks := [exampleTask1, exampleTask2]\<rparr>)))"

definition emptyIdSession :: App where
  "emptyIdSession =
     snd (handleStartTimer_async [] Opened (initialApp\<lparr>tasks := [exampleTask2, emptyIdTask]\<rparr>))"

section \<open>Properties\<close>

subsection \<open>Numbers\<close>

lemma bitLength_le: "bitLength n \<le> k \<longleftrightarrow> n < 2 ^ k"
proof (induction n arbitrary: k rule: bitLength.induct)
  case (1 n)
  show ?case
  proof (cases "n = 0")
    case True
    then show ?thesis by (simp add: bitLength.simps [of 0])
  next
    case False
    show ?thesis
    proof (cases k)
      case 0
      with False show ?thesis by (simp add: bitLength.simps [of n])
    next
      case (Suc k')
      have "bitLength n \<le> Suc k' \<longleftrightarrow> bitLength (n div 2) \<le> k'"
        using False by (simp add: bitLength.simps [of n])
      also have "\<dots> \<longleftrightarrow> n div 2 < 2 ^ k'"
        using 1 [OF False] .
      also have "\<dots> \<longleftrightarrow> n < 2 ^ Suc k'"
        by auto
      finally show ?thesis using Suc by simp
    qed
  qed
qed

lemma bitLength_zero: "bitLength n = 0 \<longleftrightarrow> n = 0"
  using bitLength_le [of n 0] by simp

lemma bitLength_lower: "0 < n \<Longrightarrow> 2 ^ (bitLength n - 1) \<le> n"
proof -
  assume pos: "0 < n"
  then have "bitLength n \<noteq> 0" by (simp add: bitLength_zero)
  then have "\<not> bitLength n \<le> bitLength n - 1" by arith
  then show ?thesis by (simp add: bitLength_le)
qed

lemma roundHalfEven_one: "roundHalfEven n (Suc 0) = n"
  by (simp add: roundHalfEven_def)

lemma roundHalfEven_ge: "a div b \<le> roundHalfEven a b"
  by (simp add: roundHalfEven_def Let_def)

lemma roundDouble_exact: "n < 2 ^ 53 \<Longrightarrow> roundDouble n = n"
proof -
  assume "n < 2 ^ 53"
  then have "bitLength n \<le> 53" by (simp add: bitLength_le)
  then show ?thesis by (simp add: roundDouble_def roundHalfEven_one)
qed

lemma roundDouble_pow53: "roundDouble (2 ^ 53) = 2 ^ 53"
proof -
  have "bitLength (2 ^ 53) \<le> 54" and "\<not> bitLength (2 ^ 53) \<le> 53"
    by (simp_all add: bitLength_le)
  then have "bitLength (2 ^ 53) - 53 = 1" by arith
  then show ?thesis by (simp add: roundDouble_def roundHalfEven_def)
qed

lemma roundDouble_large: "2 ^ 53 \<le> n \<Longrightarrow> 2 ^ 53 \<le> roundDouble n"
proof -
  assume big: "(2::nat) ^ 53 \<le> n"
  define e where "e = bitLength n - 53"
  from big have "\<not> bitLength n \<le> 53" by (simp add: bitLength_le)
  then have l: "bitLength n - 1 = 52 + e" by (simp add: e_def)
  from big have "0 < n" by (simp add: order.strict_trans2 [of 0 "2 ^ 53"])
  then have "2 ^ (52 + e) \<le> n" using bitLength_lower [of n] l by simp
  then have "2 ^ 52 * 2 ^ e \<le> n" by (simp add: power_add)
  then have "2 ^ 52 \<le> n div 2 ^ e"
    by (simp add: less_eq_div_iff_mult_less_eq)
  then have "2 ^ 52 \<le> roundHalfEven n (2 ^ e)"
    using roundHalfEven_ge [of n "2 ^ e"] by (rule order_trans)
  then have A: "2 ^ 52 * 2 ^ e \<le> roundHalfEven n (2 ^ e) * 2 ^ e"
    by (rule mult_le_mono1)
  have "e \<noteq> 0" using \<open>\<not> bitLength n \<le> 53\<close> by (simp add: e_def)
  then obtain e' where "e = Suc e'" by (cases e) auto
  then have B: "(2::nat) ^ 53 \<le> 2 ^ 52 * 2 ^ e" by simp
  from B A have "2 ^ 53 \<le> roundHalfEven n (2 ^ e) * 2 ^ e" by (rule order_trans)
  then show ?thesis unfolding roundDouble_def Let_def e_def .
qed

lemma roundDouble_eq_small: "d < 2 ^ 53 \<Longrightarrow> roundDouble x = d \<Longrightarrow> x = d"
proof -
  assume d: "d < 2 ^ 53" and r: "roundDouble x = d"
  show ?thesis
  proof (cases "x < 2 ^ 53")
    case True
    with r show ?thesis by (simp add: roundDouble_exact)
  next
    case False
    then have "2 ^ 53 \<le> x" by simp
    then have "2 ^ 53 \<le> roundDouble x" by (rule roundDouble_large)
    with d r show ?thesis by simp
  qed
qed

lemma addDouble_one: "n < 2 ^ 53 \<Longrightarrow> addDouble n (Suc 0) = Suc n"
proof -
  assume "n < 2 ^ 53"
  then have "n + 1 < 2 ^ 53 \<or> n + 1 = 2 ^ 53" by arith
  then show ?thesis
    using roundDouble_exact [of "n + 1"] roundDouble_pow53 by (auto simp: addDouble_def)
qed

lemma addDouble_one_at_pow53: "addDouble (2 ^ 53) 1 = 2 ^ 53"
proof -
  have "bitLength (2 ^ 53 + 1) \<le> 54" and "\<not> bitLength (2 ^ 53 + 1) \<le> 53"
    by (simp_all add: bitLength_le)
  then have "bitLength (2 ^ 53 + 1) - 53 = 1" by arith
  then show ?thesis by (simp add: addDouble_def roundDouble_def roundHalfEven_def)
qed

text \<open>
  Below \<open>2 ^ 53\<close> the floor of the rounded quotient is the integer quotient, for both
  divisors of the source: the rounding, by at most half of \<open>1 / 2 ^ j\<close>, cannot carry the
  quotient over the next integer, which is at least \<open>1 / b\<close> away, when \<open>b < 2 * 2 ^ j\<close>.
\<close>

lemma floorDiv_exact:
  assumes b: "0 < b" and k: "a div b < 2 ^ k" and k53: "k \<le> 53" and bk: "b < 2 ^ (54 - k)"
  shows "floorDiv a b = a div b"
proof (cases "a div b = 0")
  case True
  then show ?thesis by (simp add: floorDiv_def bitLength_zero)
next
  case False
  define l where "l = bitLength (a div b)"
  define j where "j = 53 - l"
  define P :: nat where "P = 2 ^ j"
  define t where "t = a div b"
  define A where "A = a * P"
  define c where "c = A div b"
  define r where "r = A mod b"
  define m where "m = roundHalfEven A b"
  have l0: "l \<noteq> 0" using False by (simp add: l_def bitLength_zero)
  have lk: "l \<le> k" using k by (simp add: l_def bitLength_le)
  with k53 have l53: "l \<le> 53" by simp
  have fd: "floorDiv a b = m div P"
    using l0 l53 by (simp add: floorDiv_def l_def [symmetric] j_def P_def A_def m_def)
  have "54 - k \<le> Suc j" using lk k53 by (simp add: j_def)
  then have "(2::nat) ^ (54 - k) \<le> 2 ^ Suc j" by (rule power_increasing) simp
  with bk have bP: "b < 2 * P" by (simp add: P_def)
  have P0: "0 < P" by (simp add: P_def)
  have tb: "t * b \<le> a" by (simp add: t_def)
  have "a < Suc t * b" using b by (simp add: t_def dividend_less_div_times)
  then have "Suc a \<le> Suc t * b" by simp
  then have "Suc a * P \<le> Suc t * b * P" by (rule mult_le_mono1)
  then have upA: "A + P \<le> Suc t * P * b" by (simp add: A_def algebra_simps)
  from tb have "t * b * P \<le> a * P" by (rule mult_le_mono1)
  then have "t * P * b \<le> A" by (simp add: A_def algebra_simps)
  then have "t * P \<le> c" using b by (simp add: c_def less_eq_div_iff_mult_less_eq)
  moreover have "c \<le> m" unfolding c_def m_def by (rule roundHalfEven_ge)
  ultimately have lo: "P * t \<le> m" by (simp add: mult.commute)
  have A: "A = c * b + r" by (simp add: c_def r_def)
  have hi: "m < P * Suc t"
  proof (cases "m = c")
    case True
    have "c * b \<le> A" using A by simp
    also have "A < Suc t * P * b" using upA P0 by simp
    finally have "c * b < Suc t * P * b" .
    then have "c < Suc t * P" by (simp only: mult_less_cancel2)
    with True show ?thesis by (simp add: mult.commute)
  next
    case False
    then have m: "m = c + 1" and half: "b \<le> 2 * r"
      by (auto simp: m_def roundHalfEven_def Let_def c_def r_def split: if_splits)
    have "2 * (Suc c * b) = 2 * (c * b) + 2 * b" by simp
    also have "\<dots> \<le> 2 * (c * b) + (2 * r + b)" using half by simp
    also have "\<dots> = 2 * A + b" using A by simp
    also have "\<dots> < 2 * A + 2 * P" using bP by simp
    also have "\<dots> \<le> 2 * (Suc t * P * b)" using upA by simp
    finally have "Suc c * b < Suc t * P * b" by simp
    then have "Suc c < Suc t * P" by (simp only: mult_less_cancel2)
    with m show ?thesis by (simp add: mult.commute)
  qed
  from lo hi have "m div P = t" by (rule div_nat_eqI)
  with fd show ?thesis by (simp add: t_def)
qed

lemma floorDiv_3600: "n < 2 ^ 53 \<Longrightarrow> floorDiv n 3600 = n div 3600"
proof -
  assume "n < 2 ^ 53"
  then have "n div 3600 < 2 ^ 42" by simp
  then show ?thesis by (rule floorDiv_exact [of 3600 n 42, rotated]) simp_all
qed

lemma floorDiv_60: "n < 3600 \<Longrightarrow> floorDiv n 60 = n div 60"
proof -
  assume "n < 3600"
  then have "n div 60 < 2 ^ 6" by simp
  then show ?thesis by (rule floorDiv_exact [of 60 n 6, rotated]) simp_all
qed

lemma bitLength_numeral:
  "bitLength 0 = 0"
  "bitLength (Suc 0) = 1"
  "bitLength (numeral Num.One) = 1"
  "bitLength (numeral (Num.Bit0 n)) = bitLength (numeral n) + 1"
  "bitLength (numeral (Num.Bit1 n)) = bitLength (numeral n) + 1"
proof -
  show "bitLength 0 = 0" by (simp add: bitLength.simps [of 0])
  show "bitLength (Suc 0) = 1"
    by (simp add: bitLength.simps [of "Suc 0"] bitLength.simps [of 0])
  then show "bitLength (numeral Num.One) = 1" by simp
  have "numeral (Num.Bit0 n) div 2 = (numeral n :: nat)"
    by (simp add: numeral_Bit0_div_2)
  then show "bitLength (numeral (Num.Bit0 n)) = bitLength (numeral n) + 1"
    by (simp add: bitLength.simps [of "numeral (Num.Bit0 n)"])
  have "numeral (Num.Bit1 n) div 2 = (numeral n :: nat)"
    by (simp add: numeral_Bit1_div_2)
  then show "bitLength (numeral (Num.Bit1 n)) = bitLength (numeral n) + 1"
    by (simp add: bitLength.simps [of "numeral (Num.Bit1 n)"])
qed

subsection \<open>Time formatting\<close>

lemma digit_cases: "d < 10 \<Longrightarrow> d \<in> {0, 1, 2, 3, 4, 5, 6, 7, 8, 9::nat}"
  by auto

lemma digitVal_digitChar: "d < 10 \<Longrightarrow> digitVal (digitChar d) = d"
  using digit_cases [of d] by (auto simp: digitVal_def digitChar_def)

lemma isDigit_digitChar: "d < 10 \<Longrightarrow> isDigit (digitChar d)"
  using digit_cases [of d] by (auto simp: isDigit_def digitChar_def)

lemma digitsValue_snoc: "digitsValue (s @ [c]) = 10 * digitsValue s + digitVal c"
  by (simp add: digitsValue_def)

lemma digitsValue_zero_cons: "digitsValue (CHR ''0'' # s) = digitsValue s"
  by (simp add: digitsValue_def digitVal_def)

lemma decimal_digits: "list_all isDigit (decimal n)"
proof (induction n rule: decimal.induct)
  case (1 n)
  show ?case
  proof (cases "n < 10")
    case True
    then show ?thesis by (simp add: decimal.simps [of n] isDigit_digitChar)
  next
    case False
    with 1 show ?thesis by (simp add: decimal.simps [of n] isDigit_digitChar)
  qed
qed

lemma decimal_value: "digitsValue (decimal n) = n"
proof (induction n rule: decimal.induct)
  case (1 n)
  show ?case
  proof (cases "n < 10")
    case True
    then show ?thesis
      by (simp add: decimal.simps [of n] digitsValue_def digitVal_digitChar)
  next
    case False
    with 1 show ?thesis
      by (simp add: decimal.simps [of n] digitsValue_snoc digitVal_digitChar)
  qed
qed

lemma decimal_length_pos: "0 < length (decimal n)"
  by (subst decimal.simps) simp

lemma decimal_length_1: "length (decimal n) = 1 \<longleftrightarrow> n < 10"
  using decimal_length_pos [of "n div 10"] by (subst decimal.simps) auto

lemma decimal_length_2: "length (decimal n) = 2 \<longleftrightarrow> 10 \<le> n \<and> n < 100"
  using decimal_length_1 [of "n div 10"] by (subst decimal.simps) auto

text \<open>
  Below \<open>2 ^ 53\<close> no shorter string of digits reads back as the number, and \<open>toString\<close>
  prints all its digits.
\<close>

lemma decimal_times10: "0 < n \<Longrightarrow> decimal (n * 10) = decimal n @ ''0''"
  by (subst decimal.simps) (simp add: digitChar_def)

lemma decimal_shift: "0 < s \<Longrightarrow> decimal (s * 10 ^ z) = decimal s @ replicate z CHR ''0''"
proof (induction z)
  case 0
  show ?case by simp
next
  case (Suc z)
  have "decimal (s * 10 ^ Suc z) = decimal ((s * 10 ^ z) * 10)" by (simp add: mult_ac)
  also have "\<dots> = decimal (s * 10 ^ z) @ ''0''" using Suc.prems by (simp add: decimal_times10)
  also have "\<dots> = decimal s @ replicate (Suc z) CHR ''0''"
    using Suc by (simp add: replicate_append_same)
  finally show ?case .
qed

lemma decimal_length_le: "length (decimal n) \<le> Suc k \<longleftrightarrow> n < 10 ^ Suc k"
proof (induction n arbitrary: k rule: decimal.induct)
  case (1 n)
  show ?case
  proof (cases "n < 10")
    case True
    have "(10::nat) \<le> 10 ^ Suc k" by simp
    with True have "n < 10 ^ Suc k" by (rule order.strict_trans2)
    with True show ?thesis by (simp add: decimal.simps [of n])
  next
    case False
    show ?thesis
    proof (cases k)
      case 0
      with False decimal_length_pos [of "n div 10"] show ?thesis
        by (simp add: decimal.simps [of n])
    next
      case (Suc k')
      have "length (decimal n) \<le> Suc (Suc k') \<longleftrightarrow> length (decimal (n div 10)) \<le> Suc k'"
        using False by (simp add: decimal.simps [of n])
      also have "\<dots> \<longleftrightarrow> n div 10 < 10 ^ Suc k'"
        using 1 [OF False] .
      also have "\<dots> \<longleftrightarrow> n < 10 ^ Suc (Suc k')"
        by auto
      finally show ?thesis using Suc by simp
    qed
  qed
qed

lemma shortest_small:
  "d < 2 ^ 53 \<Longrightarrow> fst (shortest d z) * 10 ^ snd (shortest d z) = d"
proof (induction z)
  case 0
  show ?case by simp
next
  case (Suc z)
  note eq = roundDouble_eq_small [OF Suc.prems]
  show ?case
    using Suc eq [of "d div 10 ^ Suc z * 10 ^ Suc z"] eq [of "(d div 10 ^ Suc z + 1) * 10 ^ Suc z"]
    by (auto simp: Let_def simp del: power_Suc)
qed

lemma toString_small: "d < 2 ^ 53 \<Longrightarrow> toString d = decimal d"
proof (cases "d = 0")
  case True
  have "length (decimal 0) = 1" by (simp add: decimal.simps [of 0])
  with True show ?thesis by (simp add: toString_def)
next
  case False
  assume d: "d < 2 ^ 53"
  obtain s z where sz: "shortest d (length (decimal d) - 1) = (s, z)"
    by (cases "shortest d (length (decimal d) - 1)")
  with shortest_small [OF d, of "length (decimal d) - 1"] have v: "s * 10 ^ z = d" by simp
  with False have "0 < s" by (cases s) simp_all
  then have dec: "decimal s @ replicate z CHR ''0'' = decimal d"
    using decimal_shift [of s z] v by simp
  from d have "d < 10 ^ Suc 20" by simp
  then have "length (decimal d) \<le> Suc 20" by (simp only: decimal_length_le)
  with dec have "length (decimal s) + z \<le> 21"
    by (metis length_append length_replicate eval_nat_numeral(3) Suc_numeral
        semiring_norm(2) semiring_norm(8))
  with sz dec show ?thesis by (simp add: toString_def)
qed

text \<open>One step of the search for the shortest digits, at a given number.\<close>

lemma shortest_skip:
  assumes "roundDouble (d div 10 ^ Suc z * 10 ^ Suc z) \<noteq> d"
    and "roundDouble ((d div 10 ^ Suc z + 1) * 10 ^ Suc z) \<noteq> d"
  shows "shortest d (Suc z) = shortest d z"
  using assms by (simp add: Let_def del: power_Suc)

lemma shortest_up:
  assumes "roundDouble (d div 10 ^ Suc z * 10 ^ Suc z) \<noteq> d"
    and "roundDouble ((d div 10 ^ Suc z + 1) * 10 ^ Suc z) = d"
  shows "shortest d (Suc z) = (d div 10 ^ Suc z + 1, Suc z)"
  using assms by (simp add: Let_def del: power_Suc)

text \<open>The three facts about one padded component: its digits, its value, its width.\<close>

lemma padStart2_cases:
  "padStart 2 ''0'' (decimal n) = (if n < 10 then CHR ''0'' # decimal n else decimal n)"
proof (cases "n < 10")
  case True
  with decimal_length_1 [of n] have "length (decimal n) = 1" by blast
  with True show ?thesis by (simp add: padStart_def)
next
  case False
  with decimal_length_1 [of n] have "length (decimal n) \<noteq> 1" by blast
  with decimal_length_pos [of n] have "2 \<le> length (decimal n)" by arith
  with False show ?thesis by (simp add: padStart_def)
qed

lemma padStart2_digits: "list_all isDigit (padStart 2 ''0'' (decimal n))"
  by (simp add: padStart2_cases decimal_digits isDigit_def)

lemma padStart2_value: "digitsValue (padStart 2 ''0'' (decimal n)) = n"
  by (simp add: padStart2_cases digitsValue_zero_cons decimal_value)

lemma padStart2_length_ge: "2 \<le> length (padStart 2 ''0'' (decimal n))"
proof (cases "n < 10")
  case True
  with decimal_length_1 [of n] show ?thesis by (simp add: padStart2_cases)
next
  case False
  with decimal_length_1 [of n] have "length (decimal n) \<noteq> 1" by blast
  with decimal_length_pos [of n] have "2 \<le> length (decimal n)" by arith
  with False show ?thesis by (simp add: padStart2_cases)
qed

lemma padStart2_length: "length (padStart 2 ''0'' (decimal n)) = 2 \<longleftrightarrow> n < 100"
proof (cases "n < 10")
  case True
  with decimal_length_1 [of n] show ?thesis by (simp add: padStart2_cases)
next
  case False
  with decimal_length_2 [of n] show ?thesis by (simp add: padStart2_cases)
qed

text \<open>
  Below \<open>2 ^ 53\<close> the three components are the padded digits of the integer quotients and
  remainders.
\<close>

lemma formatTime_exact:
  assumes "n < 2 ^ 53"
  shows "formatTime n
    = padStart 2 ''0'' (decimal (n div 3600)) @ '':''
      @ padStart 2 ''0'' (decimal ((n mod 3600) div 60)) @ '':''
      @ padStart 2 ''0'' (decimal (n mod 60))"
proof -
  have le: "n div 3600 \<le> n" and "(n mod 3600) div 60 < 60" and "n mod 60 < 60"
    by simp_all
  with assms have "n div 3600 < 2 ^ 53" and "(n mod 3600) div 60 < 2 ^ 53" and "n mod 60 < 2 ^ 53"
    by simp_all
  then have ts: "toString (n div 3600) = decimal (n div 3600)"
      "toString ((n mod 3600) div 60) = decimal ((n mod 3600) div 60)"
      "toString (n mod 60) = decimal (n mod 60)"
    by (simp_all only: toString_small)
  have h: "floorDiv n 3600 = n div 3600" using assms by (rule floorDiv_3600)
  have m: "floorDiv (n mod 3600) 60 = (n mod 3600) div 60" by (rule floorDiv_60) simp
  show ?thesis by (simp add: formatTime_def h m ts)
qed

text \<open>
  The hours of \<open>3600 * 2 ^ 60\<close> seconds: the quotient \<open>2 ^ 60\<close> is a double, and the
  shortest digits that read back as it are \<^verbatim>\<open>1152921504606847\<close> with three zeros.
\<close>

lemma floorDiv_large: "floorDiv (3600 * 2 ^ 60) 3600 = 2 ^ 60"
  by (simp add: floorDiv_def roundHalfEven_def bitLength_numeral)

lemma decimal_large: "decimal 1152921504606846976 = ''1152921504606846976''"
  by (simp add: decimal.simps digitChar_def)

lemma shortest_large: "shortest 1152921504606846976 18 = (1152921504606847, 3)"
proof -
  note rd = roundDouble_def Let_def roundHalfEven_def bitLength_numeral
  have s18: "shortest 1152921504606846976 (Suc 17) = shortest 1152921504606846976 17"
    by (rule shortest_skip [of _ 17]) (simp_all add: rd)
  have s17: "shortest 1152921504606846976 (Suc 16) = shortest 1152921504606846976 16"
    by (rule shortest_skip [of _ 16]) (simp_all add: rd)
  have s16: "shortest 1152921504606846976 (Suc 15) = shortest 1152921504606846976 15"
    by (rule shortest_skip [of _ 15]) (simp_all add: rd)
  have s15: "shortest 1152921504606846976 (Suc 14) = shortest 1152921504606846976 14"
    by (rule shortest_skip [of _ 14]) (simp_all add: rd)
  have s14: "shortest 1152921504606846976 (Suc 13) = shortest 1152921504606846976 13"
    by (rule shortest_skip [of _ 13]) (simp_all add: rd)
  have s13: "shortest 1152921504606846976 (Suc 12) = shortest 1152921504606846976 12"
    by (rule shortest_skip [of _ 12]) (simp_all add: rd)
  have s12: "shortest 1152921504606846976 (Suc 11) = shortest 1152921504606846976 11"
    by (rule shortest_skip [of _ 11]) (simp_all add: rd)
  have s11: "shortest 1152921504606846976 (Suc 10) = shortest 1152921504606846976 10"
    by (rule shortest_skip [of _ 10]) (simp_all add: rd)
  have s10: "shortest 1152921504606846976 (Suc 9) = shortest 1152921504606846976 9"
    by (rule shortest_skip [of _ 9]) (simp_all add: rd)
  have s9: "shortest 1152921504606846976 (Suc 8) = shortest 1152921504606846976 8"
    by (rule shortest_skip [of _ 8]) (simp_all add: rd)
  have s8: "shortest 1152921504606846976 (Suc 7) = shortest 1152921504606846976 7"
    by (rule shortest_skip [of _ 7]) (simp_all add: rd)
  have s7: "shortest 1152921504606846976 (Suc 6) = shortest 1152921504606846976 6"
    by (rule shortest_skip [of _ 6]) (simp_all add: rd)
  have s6: "shortest 1152921504606846976 (Suc 5) = shortest 1152921504606846976 5"
    by (rule shortest_skip [of _ 5]) (simp_all add: rd)
  have s5: "shortest 1152921504606846976 (Suc 4) = shortest 1152921504606846976 4"
    by (rule shortest_skip [of _ 4]) (simp_all add: rd)
  have s4: "shortest 1152921504606846976 (Suc 3) = shortest 1152921504606846976 3"
    by (rule shortest_skip [of _ 3]) (simp_all add: rd)
  have s3: "shortest 1152921504606846976 (Suc 2) = (1152921504606846976 div 10 ^ Suc 2 + 1, Suc 2)"
    by (rule shortest_up [of _ 2]) (simp_all add: rd)
  show ?thesis
    using s18 s17 s16 s15 s14 s13 s12 s11 s10 s9 s8 s7 s6 s5 s4 s3 by simp
qed

lemma toString_large: "toString 1152921504606846976 = ''1152921504606847000''"
proof -
  have len: "length (decimal 1152921504606846976) - 1 = 18" by (simp add: decimal_large)
  have sh: "shortest 1152921504606846976 (length (decimal 1152921504606846976) - 1)
      = (1152921504606847, 3)"
    by (simp only: len shortest_large)
  have ds: "decimal 1152921504606847 = ''1152921504606847''"
    by (simp add: decimal.simps digitChar_def)
  have r3: "replicate 3 CHR ''0'' = ''000''" by (simp add: numeral_3_eq_3)
  show ?thesis unfolding toString_def sh by (simp add: ds r3)
qed

lemma formatTime_large: "formatTime (3600 * 2 ^ 60) = ''1152921504606847000:00:00''"
proof -
  have z: "toString 0 = ''0''" by (simp add: toString_small decimal.simps digitChar_def)
  have h: "floorDiv 4150517416584649113600 3600 = 1152921504606846976" using floorDiv_large by simp
  have m: "floorDiv 0 60 = 0" by (simp add: floorDiv_def bitLength_numeral)
  show ?thesis
    by (simp add: formatTime_def h m z toString_large padStart_def)
qed

text \<open>
  \<^bold>\<open>C9\<close>. For every number of seconds \<open>n\<close> below \<open>2 ^ 53\<close>, \<open>formatTime n\<close> is three digit
  strings joined by colons. They denote \<open>n div 3600\<close> hours, \<open>(n mod 3600) div 60\<close> minutes
  and \<open>n mod 60\<close> seconds. Minutes and seconds are exactly two characters wide, the
  hours at least two, and exactly two as long as they are below 100 (zero padding
  to two digits, never truncation). In particular \<open>formatTime 3\<close> is \<^verbatim>\<open>00:00:03\<close> and
  \<open>formatTime 3661\<close> is \<^verbatim>\<open>01:01:01\<close>.
\<close>

theorem formatTime_hh_mm_ss:
  assumes "n < 2 ^ 53"
  shows
    "\<exists>hh mm ss.
       formatTime n = hh @ '':'' @ mm @ '':'' @ ss
       \<and> list_all isDigit hh \<and> list_all isDigit mm \<and> list_all isDigit ss
       \<and> digitsValue hh = n div 3600
       \<and> digitsValue mm = (n mod 3600) div 60
       \<and> digitsValue ss = n mod 60
       \<and> 2 \<le> length hh \<and> (length hh = 2 \<longleftrightarrow> n div 3600 < 100)
       \<and> length mm = 2 \<and> length ss = 2
       \<and> formatTime 3 = ''00:00:03'' \<and> formatTime 3661 = ''01:01:01''"
proof -
  let ?p = "\<lambda>v. padStart 2 ''0'' (decimal v)"
  have eq: "formatTime n
      = ?p (n div 3600) @ '':'' @ ?p ((n mod 3600) div 60) @ '':'' @ ?p (n mod 60)"
    using assms by (rule formatTime_exact)
  have mm: "(n mod 3600) div 60 < 100" and ss: "n mod 60 < 100"
    by simp_all
  have e1: "formatTime 3 = ''00:00:03''"
    by (simp add: formatTime_exact decimal.simps digitChar_def padStart_def)
  have e2: "formatTime 3661 = ''01:01:01''"
    by (simp add: formatTime_exact decimal.simps digitChar_def padStart_def)
  have "formatTime n
      = ?p (n div 3600) @ '':'' @ ?p ((n mod 3600) div 60) @ '':'' @ ?p (n mod 60)
     \<and> list_all isDigit (?p (n div 3600))
     \<and> list_all isDigit (?p ((n mod 3600) div 60))
     \<and> list_all isDigit (?p (n mod 60))
     \<and> digitsValue (?p (n div 3600)) = n div 3600
     \<and> digitsValue (?p ((n mod 3600) div 60)) = (n mod 3600) div 60
     \<and> digitsValue (?p (n mod 60)) = n mod 60
     \<and> 2 \<le> length (?p (n div 3600))
     \<and> (length (?p (n div 3600)) = 2 \<longleftrightarrow> n div 3600 < 100)
     \<and> length (?p ((n mod 3600) div 60)) = 2 \<and> length (?p (n mod 60)) = 2
     \<and> formatTime 3 = ''00:00:03'' \<and> formatTime 3661 = ''01:01:01''"
    using eq padStart2_digits padStart2_value padStart2_length padStart2_length_ge mm ss e1 e2
    by simp
  then show ?thesis by blast
qed

theorem formatTime_hh_mm_ss_witness:
  "(86399::nat) < 2 ^ 53
   \<and> (\<exists>hh mm ss.
         formatTime 86399 = hh @ '':'' @ mm @ '':'' @ ss
         \<and> digitsValue hh = 23 \<and> digitsValue mm = 59 \<and> digitsValue ss = 59
         \<and> length hh = 2 \<and> length mm = 2 \<and> length ss = 2)
   \<and> formatTime 3 = ''00:00:03'' \<and> formatTime 3661 = ''01:01:01''"
proof -
  have h: "(86399::nat) < 2 ^ 53" by simp
  have q: "(86399::nat) div 3600 = 23" "((86399::nat) mod 3600) div 60 = 59"
      "(86399::nat) mod 60 = 59"
    by simp_all
  from formatTime_hh_mm_ss [OF h] obtain hh mm ss where
    "formatTime 86399 = hh @ '':'' @ mm @ '':'' @ ss"
    "digitsValue hh = 86399 div 3600" "digitsValue mm = (86399 mod 3600) div 60"
    "digitsValue ss = 86399 mod 60"
    "length hh = 2 \<longleftrightarrow> (86399::nat) div 3600 < 100" "length mm = 2" "length ss = 2"
    "formatTime 3 = ''00:00:03''" "formatTime 3661 = ''01:01:01''"
    by blast
  with h q show ?thesis by auto
qed

text \<open>
  From \<open>2 ^ 53\<close> up the digits of the hours are not always those of the quotient:
  \<open>3600 * 2 ^ 60\<close> is a double and a whole number of hours, \<open>2 ^ 60\<close>, that is
  1152921504606846976, and the hours are printed as \<^verbatim>\<open>1152921504606847000\<close>.
\<close>

theorem formatTime_large_hours_rounded:
  "isDouble (3600 * 2 ^ 60)
   \<and> formatTime (3600 * 2 ^ 60) = ''1152921504606847000:00:00''
   \<and> (3600 * 2 ^ 60) div 3600 = (1152921504606846976::nat)
   \<and> digitsValue ''1152921504606847000'' = 1152921504606847000
   \<and> digitsValue ''1152921504606847000'' \<noteq> (3600 * 2 ^ 60) div 3600"
proof -
  have a: "isDouble (3600 * 2 ^ 60)"
    by (simp add: isDouble_def roundDouble_def roundHalfEven_def bitLength_numeral)
  have b: "digitsValue ''1152921504606847000'' = 1152921504606847000"
    by (simp add: digitsValue_def digitVal_def)
  show ?thesis
    using a b formatTime_large by simp
qed

subsection \<open>The tick\<close>

text \<open>
  The task list that a tick returns does not depend on the window: it is the map of the
  source without its rendering.
\<close>

lemma tickUpdater_widget_tasks:
  "fst (tickUpdater_widget tid d pip ts)
     = map (\<lambda>t. if id' t = tid
                 then t\<lparr>timeSpent := newTimeSpent d t, distractionTime := newDistractionTime d t\<rparr>
                 else t) ts"
  by (induction ts arbitrary: pip) (simp_all add: Let_def case_prod_beta)

lemma tickUpdater_tasks:
  "fst (tickUpdater tid d w ts)
     = map (\<lambda>t. if id' t = tid
                 then t\<lparr>timeSpent := newTimeSpent d t, distractionTime := newDistractionTime d t\<rparr>
                 else t) ts"
  by (induction ts arbitrary: w) (simp_all add: Let_def case_prod_beta)

text \<open>
  A run of ticks on the targeted task, as long as neither counter is taken beyond
  \<open>2 ^ 53\<close>: up to there each addition of 1 is exact.
\<close>

lemma newTimeSpent_exact:
  "timeSpent t < 2 ^ 53 \<Longrightarrow> newTimeSpent d t = (if d then timeSpent t else timeSpent t + 1)"
  by (simp add: newTimeSpent_def addDouble_one)

lemma newDistractionTime_exact:
  "distractionTime t < 2 ^ 53
     \<Longrightarrow> newDistractionTime d t = (if d then distractionTime t + 1 else distractionTime t)"
  by (simp add: newDistractionTime_def addDouble_one)

lemma ticks_fst_eq: "fst (ticks tid ds w ts) = fst (ticks_widget tid ds pip ts)"
proof (induction ds arbitrary: w pip ts)
  case Nil
  show ?case by simp
next
  case (Cons d ds)
  obtain ts' w' where step: "tickUpdater tid d w ts = (ts', w')"
    by (cases "tickUpdater tid d w ts")
  obtain ts'' pip' where step': "tickUpdater_widget tid d pip ts = (ts'', pip')"
    by (cases "tickUpdater_widget tid d pip ts")
  have "ts' = ts''"
    using step step' tickUpdater_tasks [of tid d w ts] tickUpdater_widget_tasks [of tid d pip ts]
    by simp
  then show ?case by (simp add: step step' Cons.IH [of w' ts'' pip'])
qed

lemma ticks_widget_nth:
  assumes "i < length ts" and "id' (ts ! i) = tid"
    and "timeSpent (ts ! i) + length (filter Not ds) \<le> 2 ^ 53"
    and "distractionTime (ts ! i) + length (filter id ds) \<le> 2 ^ 53"
  shows "fst (ticks_widget tid ds pip ts) ! i
     = (ts ! i)\<lparr>timeSpent := timeSpent (ts ! i) + length (filter Not ds),
                  distractionTime := distractionTime (ts ! i) + length (filter id ds)\<rparr>"
  using assms
proof (induction ds arbitrary: pip ts)
  case Nil
  show ?case by simp
next
  case (Cons d ds)
  obtain ts' pip' where step: "tickUpdater_widget tid d pip ts = (ts', pip')"
    by (cases "tickUpdater_widget tid d pip ts")
  then have ts': "ts' = map (\<lambda>t. if id' t = tid
                 then t\<lparr>timeSpent := newTimeSpent d t, distractionTime := newDistractionTime d t\<rparr>
                 else t) ts"
    using tickUpdater_widget_tasks [of tid d pip ts] by simp
  have len: "i < length ts'" using Cons.prems(1) by (simp add: ts')
  have el: "ts' ! i = (ts ! i)\<lparr>timeSpent := newTimeSpent d (ts ! i),
                                 distractionTime := newDistractionTime d (ts ! i)\<rparr>"
    using Cons.prems(1,2) by (simp add: ts')
  have unfold: "fst (ticks_widget tid (d # ds) pip ts) = fst (ticks_widget tid ds pip' ts')"
    by (simp add: step)
  show ?case
  proof (cases d)
    case True
    with Cons.prems(4) have "distractionTime (ts ! i) < 2 ^ 53" by simp
    then have "newDistractionTime d (ts ! i) = distractionTime (ts ! i) + 1"
      using True by (simp add: newDistractionTime_exact)
    moreover have "newTimeSpent d (ts ! i) = timeSpent (ts ! i)"
      using True by (simp add: newTimeSpent_def)
    ultimately have el': "ts' ! i = (ts ! i)\<lparr>distractionTime := distractionTime (ts ! i) + 1\<rparr>"
      by (simp add: el)
    have "fst (ticks_widget tid ds pip' ts') ! i
        = (ts' ! i)\<lparr>timeSpent := timeSpent (ts' ! i) + length (filter Not ds),
                      distractionTime := distractionTime (ts' ! i) + length (filter id ds)\<rparr>"
      using len Cons.prems(2,3,4) True by (intro Cons.IH) (simp_all add: el')
    then show ?thesis using True unfold by (simp add: el' id_def)
  next
    case False
    with Cons.prems(3) have "timeSpent (ts ! i) < 2 ^ 53" by simp
    then have "newTimeSpent d (ts ! i) = timeSpent (ts ! i) + 1"
      using False by (simp add: newTimeSpent_exact)
    moreover have "newDistractionTime d (ts ! i) = distractionTime (ts ! i)"
      using False by (simp add: newDistractionTime_def)
    ultimately have el': "ts' ! i = (ts ! i)\<lparr>timeSpent := timeSpent (ts ! i) + 1\<rparr>"
      by (simp add: el)
    have "fst (ticks_widget tid ds pip' ts') ! i
        = (ts' ! i)\<lparr>timeSpent := timeSpent (ts' ! i) + length (filter Not ds),
                      distractionTime := distractionTime (ts' ! i) + length (filter id ds)\<rparr>"
      using len Cons.prems(2,3,4) False by (intro Cons.IH) (simp_all add: el')
    then show ?thesis using False unfold by (simp add: el' id_def)
  qed
qed

lemma count_flags: "length (filter Not ds) + length (filter id ds) = length ds"
  by (induction ds) auto

lemma tickUpdater_widget_missing:
  "find (\<lambda>t. id' t = tid) ts = None \<Longrightarrow> tickUpdater_widget tid d pip ts = (ts, pip)"
  by (induction ts) (auto split: if_splits)

lemma tickUpdater_missing:
  "find (\<lambda>t. id' t = tid) ts = None \<Longrightarrow> tickUpdater tid d w ts = (ts, w)"
  by (induction ts) (auto split: if_splits)






lemma renderTick_flags [simp]:
  "closed (renderTick a b w) = closed w"
  "distractionClass (renderTick a b w) = distractionClass w"
  by (simp_all add: renderTick_def Let_def split: option.splits)


subsection \<open>Stopping\<close>

lemma handleStopTimer_widget_fields [simp]:
  "timerIntervalRef (handleStopTimer_widget s) = None"
  "pipWindowRef (handleStopTimer_widget s) = None"
  "timedTaskId (handleStopTimer_widget s) = None"
  "tasks (handleStopTimer_widget s) = tasks s"
  "tasksVersion (handleStopTimer_widget s) = tasksVersion s"
  "isDistracted (handleStopTimer_widget s) = isDistracted s"
  "timerDeps (handleStopTimer_widget s) = timerDeps s"
  "timerHasCleanup (handleStopTimer_widget s) = timerHasCleanup s"
  "renderDeps (handleStopTimer_widget s) = renderDeps s"
  by (simp_all add: handleStopTimer_widget_def clearInterval_def closeWindow_def Let_def
      split: option.splits)

lemma handleStopTimer_widget_intervals:
  "intervals (handleStopTimer_widget s)
     = (case timerIntervalRef s of
          None \<Rightarrow> intervals s
        | Some h \<Rightarrow> filter (\<lambda>e. fst e \<noteq> h) (intervals s))"
  by (simp add: handleStopTimer_widget_def clearInterval_def closeWindow_def Let_def
      split: option.splits)

lemma handleStopTimer_widget_windows:
  "windows (handleStopTimer_widget s)
     = (case pipWindowRef s of
          None \<Rightarrow> windows s
        | Some p \<Rightarrow> (windows s)(p := (windows s p)\<lparr>closed := True\<rparr>))"
  by (auto simp: handleStopTimer_widget_def clearInterval_def closeWindow_def Let_def fun_eq_iff
      split: option.splits)

lemma handleStopTimer_fields [simp]:
  "timerIntervalRef (handleStopTimer s) = None"
  "pipWindowRef (handleStopTimer s) = None"
  "timedTaskId (handleStopTimer s) = None"
  "tasks (handleStopTimer s) = tasks s"
  by (simp_all add: handleStopTimer_def clearInterval_def closeWindow_def Let_def
      split: option.splits)

lemma handleStopTimer_intervals:
  "intervals (handleStopTimer s)
     = (case timerIntervalRef s of
          None \<Rightarrow> intervals s
        | Some h \<Rightarrow> filter (\<lambda>e. fst e \<noteq> h) (intervals s))"
  by (simp add: handleStopTimer_def clearInterval_def closeWindow_def Let_def
      split: option.splits)

lemma handleStopTimer_windows:
  "windows (handleStopTimer s)
     = (case pipWindowRef s of
          None \<Rightarrow> windows s
        | Some p \<Rightarrow> (windows s)(p := (windows s p)\<lparr>closed := True\<rparr>))"
  by (simp add: handleStopTimer_def clearInterval_def closeWindow_def Let_def
      split: option.splits)

lemma handleStopTimer_widget_idle: "idle s \<Longrightarrow> handleStopTimer_widget s = s"
  by (simp add: handleStopTimer_widget_def idle_def)

lemma handleStopTimer_idle: "idle s \<Longrightarrow> handleStopTimer s = s"
  by (simp add: handleStopTimer_def idle_def)

lemma idle_handleStopTimer_widget: "idle (handleStopTimer_widget s)"
  by (simp add: idle_def)

lemma idle_handleStopTimer: "idle (handleStopTimer s)"
  by (simp add: idle_def)

lemma filter_all_same: "list_all (\<lambda>e. fst e = h) xs \<Longrightarrow> filter (\<lambda>e. fst e \<noteq> h) xs = []"
  by (induction xs) auto

subsection \<open>React's commit in the widget version\<close>

lemma renderWidgetContent_fields [simp]:
  "tasks (renderWidgetContent s) = tasks s"
  "tasksVersion (renderWidgetContent s) = tasksVersion s"
  "timedTaskId (renderWidgetContent s) = timedTaskId s"
  "isDistracted (renderWidgetContent s) = isDistracted s"
  "pipWindowRef (renderWidgetContent s) = pipWindowRef s"
  "timerIntervalRef (renderWidgetContent s) = timerIntervalRef s"
  "intervals (renderWidgetContent s) = intervals s"
  "nextIntervalId (renderWidgetContent s) = nextIntervalId s"
  "timerDeps (renderWidgetContent s) = timerDeps s"
  "timerHasCleanup (renderWidgetContent s) = timerHasCleanup s"
  "renderDeps (renderWidgetContent s) = renderDeps s"
  by (simp_all add: renderWidgetContent_def Let_def split: option.splits)

lemma timerEffect_cleanup_fields [simp]:
  "tasks (timerEffect_cleanup s) = tasks s"
  "tasksVersion (timerEffect_cleanup s) = tasksVersion s"
  "timedTaskId (timerEffect_cleanup s) = timedTaskId s"
  "isDistracted (timerEffect_cleanup s) = isDistracted s"
  "pipWindowRef (timerEffect_cleanup s) = pipWindowRef s"
  "timerIntervalRef (timerEffect_cleanup s) = timerIntervalRef s"
  "windows (timerEffect_cleanup s) = windows s"
  "timerDeps (timerEffect_cleanup s) = timerDeps s"
  "timerHasCleanup (timerEffect_cleanup s) = timerHasCleanup s"
  "renderDeps (timerEffect_cleanup s) = renderDeps s"
  by (simp_all add: timerEffect_cleanup_def clearInterval_def split: option.splits)

lemma timerEffect_fields [simp]:
  "tasks (timerEffect s) = tasks s"
  "tasksVersion (timerEffect s) = tasksVersion s"
  "timedTaskId (timerEffect s) = timedTaskId s"
  "isDistracted (timerEffect s) = isDistracted s"
  "pipWindowRef (timerEffect s) = pipWindowRef s"
  "windows (timerEffect s) = windows s"
  "timerDeps (timerEffect s) = timerDeps s"
  "renderDeps (timerEffect s) = renderDeps s"
  by (simp_all add: timerEffect_def setInterval_def Let_def split: option.splits)

lemma commit_widget_fields [simp]:
  "tasks (commit_widget s) = tasks s"
  "tasksVersion (commit_widget s) = tasksVersion s"
  "timedTaskId (commit_widget s) = timedTaskId s"
  "isDistracted (commit_widget s) = isDistracted s"
  "pipWindowRef (commit_widget s) = pipWindowRef s"
  "timerDeps (commit_widget s) = (timedTaskId s, isDistracted s)"
  "renderDeps (commit_widget s) = (timedTaskId s, tasksVersion s)"
  by (simp_all add: commit_widget_def Let_def)

lemma commit_widget_fix:
  "timerDeps s = (timedTaskId s, isDistracted s) \<Longrightarrow> renderDeps s = (timedTaskId s, tasksVersion s)
     \<Longrightarrow> commit_widget s = s"
  by (simp add: commit_widget_def)

lemma commit_widget_idem: "commit_widget (commit_widget s) = commit_widget s"
  by (rule commit_widget_fix) simp_all

lemma timerEffect_not_truthy:
  "\<not> truthy (timedTaskId s) \<Longrightarrow> timerEffect s = s\<lparr>timerHasCleanup := False\<rparr>"
  by (simp add: timerEffect_def truthy_def split: option.splits)

lemma commit_widget_not_truthy:
  assumes "\<not> truthy (timedTaskId s)"
  shows "timerIntervalRef (commit_widget s) = timerIntervalRef s"
    and "set (intervals (commit_widget s)) \<subseteq> set (intervals s)"
proof -
  have a: "\<not> truthy (timedTaskId (timerEffect_cleanup s))"
    and b: "\<not> truthy (timedTaskId (renderWidgetContent s))"
    and c: "\<not> truthy (timedTaskId (renderWidgetContent (timerEffect_cleanup s)))"
    using assms by simp_all
  have d: "\<And>x r. \<not> truthy (timedTaskId x) \<Longrightarrow> \<not> truthy (timedTaskId (x\<lparr>renderDeps := r\<rparr>))"
    by simp
  show "timerIntervalRef (commit_widget s) = timerIntervalRef s"
    using assms by (simp add: commit_widget_def Let_def timerEffect_not_truthy a b c d)
  show "set (intervals (commit_widget s)) \<subseteq> set (intervals s)"
    using assms
    by (auto simp: commit_widget_def Let_def timerEffect_not_truthy a b c d
        timerEffect_cleanup_def clearInterval_def split: option.splits)
qed

lemma idle_commit_widget: "idle s \<Longrightarrow> idle (commit_widget s)"
  using commit_widget_not_truthy(1) [of s] by (simp add: idle_def truthy_def)

subsection \<open>Clock pulses\<close>

lemma intervalCallback_fields [simp]:
  "timedTaskId (intervalCallback cl s) = timedTaskId s"
  "isDistracted (intervalCallback cl s) = isDistracted s"
  "isDistractedRef (intervalCallback cl s) = isDistractedRef s"
  "pipWindowRef (intervalCallback cl s) = pipWindowRef s"
  "timerIntervalRef (intervalCallback cl s) = timerIntervalRef s"
  "intervals (intervalCallback cl s) = intervals s"
  "nextIntervalId (intervalCallback cl s) = nextIntervalId s"
  "timerDeps (intervalCallback cl s) = timerDeps s"
  "timerHasCleanup (intervalCallback cl s) = timerHasCleanup s"
  by (simp_all add: intervalCallback_def setTasks_def split: TickClosure.splits prod.splits)

lemma foldl_intervalCallback_fields:
  "timedTaskId (foldl (\<lambda>s' e. intervalCallback (snd e) s') s xs) = timedTaskId s
   \<and> isDistracted (foldl (\<lambda>s' e. intervalCallback (snd e) s') s xs) = isDistracted s
   \<and> isDistractedRef (foldl (\<lambda>s' e. intervalCallback (snd e) s') s xs) = isDistractedRef s
   \<and> pipWindowRef (foldl (\<lambda>s' e. intervalCallback (snd e) s') s xs) = pipWindowRef s
   \<and> timerIntervalRef (foldl (\<lambda>s' e. intervalCallback (snd e) s') s xs) = timerIntervalRef s
   \<and> intervals (foldl (\<lambda>s' e. intervalCallback (snd e) s') s xs) = intervals s
   \<and> timerDeps (foldl (\<lambda>s' e. intervalCallback (snd e) s') s xs) = timerDeps s
   \<and> timerHasCleanup (foldl (\<lambda>s' e. intervalCallback (snd e) s') s xs) = timerHasCleanup s"
  by (induction xs arbitrary: s) simp_all

lemma clockPulse_fields [simp]:
  "timedTaskId (clockPulse s) = timedTaskId s"
  "isDistracted (clockPulse s) = isDistracted s"
  "isDistractedRef (clockPulse s) = isDistractedRef s"
  "pipWindowRef (clockPulse s) = pipWindowRef s"
  "timerIntervalRef (clockPulse s) = timerIntervalRef s"
  "intervals (clockPulse s) = intervals s"
  "timerDeps (clockPulse s) = timerDeps s"
  "timerHasCleanup (clockPulse s) = timerHasCleanup s"
  using foldl_intervalCallback_fields [of s "intervals s"] by (simp_all add: clockPulse_def)

lemma clockPulse_no_intervals: "intervals s = [] \<Longrightarrow> clockPulse s = s"
  by (simp add: clockPulse_def)

lemma run_widget_pulses_quiet:
  assumes "intervals s = []" and "commit_widget s = s"
  shows "run_widget (replicate n ClockPulse) s = s"
proof (induction n)
  case 0
  show ?case by simp
next
  case (Suc n)
  have "step_widget ClockPulse s = s"
    using assms by (simp add: step_widget_def handler_widget_def clockPulse_no_intervals)
  with Suc show ?case by simp
qed

subsection \<open>The invariant of the widget version\<close>

lemma inv_widget_render [simp]:
  "inv_widget (renderWidgetContent s) = inv_widget s"
  "inv_widget (s\<lparr>renderDeps := r\<rparr>) = inv_widget s"
  by (simp_all add: inv_widget_def split: option.splits)

lemma commit_widget_inv:
  assumes "pre_commit x"
  shows "inv_widget (commit_widget x)"
proof (cases "timerDeps x = (timedTaskId x, isDistracted x)")
  case True
  with assms have "inv_widget x" by (simp add: pre_commit_def)
  with True show ?thesis by (simp add: commit_widget_def Let_def)
next
  case False
  let ?s1 = "if timerHasCleanup x then timerEffect_cleanup x else x"
  have empty: "intervals ?s1 = []"
    using assms False
    by (auto simp: pre_commit_def timerEffect_cleanup_def clearInterval_def filter_all_same
        split: option.splits if_splits)
  have eff: "\<And>y. intervals y = [] \<Longrightarrow> timedTaskId y = timedTaskId x
      \<Longrightarrow> isDistracted y = isDistracted x
      \<Longrightarrow> inv_widget ((timerEffect y)\<lparr>timerDeps := (timedTaskId x, isDistracted x)\<rparr>)"
    by (auto simp: inv_widget_def timerEffect_def setInterval_def Let_def split: option.splits)
  show ?thesis
  proof (cases "renderDeps x \<noteq> (timedTaskId x, tasksVersion x)")
    case True
    have "commit_widget x
        = (timerEffect
             ((renderWidgetContent ?s1)\<lparr>renderDeps := (timedTaskId x, tasksVersion x)\<rparr>))
            \<lparr>timerDeps := (timedTaskId x, isDistracted x)\<rparr>"
      using False True by (simp add: commit_widget_def Let_def)
    moreover have
      "intervals ((renderWidgetContent ?s1)\<lparr>renderDeps := (timedTaskId x, tasksVersion x)\<rparr>) = []"
      using empty by simp
    ultimately show ?thesis using eff by simp
  next
    case same: False
    have "commit_widget x = (timerEffect ?s1)\<lparr>timerDeps := (timedTaskId x, isDistracted x)\<rparr>"
      using False same by (simp add: commit_widget_def Let_def)
    then show ?thesis using eff empty by simp
  qed
qed

lemma inv_widget_no_intervals:
  "inv_widget s \<Longrightarrow> \<not> truthy (timedTaskId s) \<Longrightarrow> intervals s = [] \<and> \<not> timerHasCleanup s"
  by (auto simp: inv_widget_def truthy_def split: option.splits if_splits)

lemma inv_widget_subscribed:
  assumes "inv_widget s" and "timedTaskId s = Some tid" and "tid \<noteq> []"
  shows "timerIntervalRef s \<noteq> None" and "intervals s \<noteq> []"
  using assms by (auto simp: inv_widget_def split: option.splits)

lemma handler_widget_pre_commit:
  assumes "inv_widget s"
  shows "pre_commit (handler_widget e s)"
proof (cases e)
  case (OpenWidget acq hidden)
  show ?thesis
    using assms inv_widget_no_intervals [of s]
    by (auto simp: OpenWidget handler_widget_def handleOpenWidget_def pre_commit_def
        requestWindow_def Let_def inv_widget_def split: option.splits Acquire.splits if_splits)
next
  case (StartButton taskId)
  show ?thesis
    using assms
    by (auto simp: StartButton handler_widget_def pre_commit_def inv_widget_def
        split: option.splits if_splits)
next
  case PageHide
  show ?thesis
    using assms
    by (auto simp: PageHide handler_widget_def pre_commit_def inv_widget_def
        handleStopTimer_widget_intervals split: option.splits if_splits)
next
  case CheckPipClosed
  show ?thesis
    using assms
    by (auto simp: CheckPipClosed handler_widget_def checkPipClosedInterval_def pre_commit_def
        inv_widget_def handleStopTimer_widget_intervals split: option.splits if_splits)
next
  case (VisibilityChange hidden)
  show ?thesis
    using assms
    by (auto simp: VisibilityChange handler_widget_def handleVisibilityChange_widget_def
        pre_commit_def inv_widget_def Let_def split: option.splits if_splits)
next
  case ClockPulse
  show ?thesis
    using assms
    by (auto simp: ClockPulse handler_widget_def pre_commit_def inv_widget_def
        split: option.splits if_splits)
next
  case UserClosesWindow
  show ?thesis
    using assms
    by (auto simp: UserClosesWindow handler_widget_def closeWindow_def pre_commit_def
        inv_widget_def split: option.splits if_splits)
next
  case (ReplaceTasks ts)
  show ?thesis
    using assms
    by (auto simp: ReplaceTasks handler_widget_def setTasks_def pre_commit_def inv_widget_def
        split: option.splits if_splits)
qed

lemma step_widget_inv: "inv_widget s \<Longrightarrow> inv_widget (step_widget e s)"
  by (simp add: step_widget_def commit_widget_inv handler_widget_pre_commit)

lemma run_widget_inv: "inv_widget s \<Longrightarrow> inv_widget (run_widget es s)"
  by (induction es arbitrary: s) (simp_all add: step_widget_inv)

lemma inv_widget_initial: "inv_widget initialApp"
  by (simp add: inv_widget_def initialApp_def)

text \<open>Every state that the widget version reaches from its initial state is well formed.\<close>

lemma inv_widget_reachable: "inv_widget (run_widget es initialApp)"
  by (rule run_widget_inv [OF inv_widget_initial])

lemma handleStopTimer_widget_unsubscribes:
  assumes "inv_widget s"
  shows "intervals (handleStopTimer_widget s) = []"
  using assms
  by (auto simp: handleStopTimer_widget_intervals inv_widget_def split: option.splits if_splits)

lemma step_PageHide:
  assumes "inv_widget s"
  shows "idle (step_widget PageHide s)" and "intervals (step_widget PageHide s) = []"
    and "tasks (step_widget PageHide s) = tasks s"
proof -
  let ?x = "handleStopTimer_widget s"
  have st: "step_widget PageHide s = commit_widget ?x"
    by (simp add: step_widget_def handler_widget_def)
  have nt: "\<not> truthy (timedTaskId ?x)" by (simp add: truthy_def)
  show "idle (step_widget PageHide s)"
    using idle_commit_widget [OF idle_handleStopTimer_widget [of s]] by (simp add: st)
  show "intervals (step_widget PageHide s) = []"
    using commit_widget_not_truthy(2) [OF nt] handleStopTimer_widget_unsubscribes [OF assms]
    by (simp add: st)
  show "tasks (step_widget PageHide s) = tasks s" by (simp add: st)
qed

lemma clockPulse_widget_single:
  assumes "inv_widget s" and "timedTaskId s = Some tid" and "tid \<noteq> []"
  shows "clockPulse s = intervalCallback (WidgetTick tid (isDistracted s)) s"
  using assms by (auto simp: inv_widget_def clockPulse_def split: option.splits)

text \<open>
  In a well-formed state with a timed task, a clock pulse is one application of the
  updater, with the current flag.
\<close>

lemma clockPulse_widget_tasks:
  assumes "inv_widget s" and "timedTaskId s = Some tid" and "tid \<noteq> []"
  shows "tasks (step_widget ClockPulse s)
      = fst (tickUpdater_widget tid (isDistracted s) (map_option (windows s) (pipWindowRef s))
               (tasks s))"
  using clockPulse_widget_single [OF assms]
  by (simp add: step_widget_def handler_widget_def intervalCallback_def setTasks_def
      split: prod.splits)

lemma step_ClockPulse_keeps_subscription:
  assumes "inv_widget s"
  shows "timedTaskId (step_widget ClockPulse s) = timedTaskId s"
    and "pipWindowRef (step_widget ClockPulse s) = pipWindowRef s"
    and "timerIntervalRef (step_widget ClockPulse s) = timerIntervalRef s"
    and "intervals (step_widget ClockPulse s) = intervals s"
proof -
  have deps: "timerDeps (clockPulse s) = (timedTaskId (clockPulse s), isDistracted (clockPulse s))"
    using assms by (simp add: inv_widget_def)
  show "timedTaskId (step_widget ClockPulse s) = timedTaskId s"
    and "pipWindowRef (step_widget ClockPulse s) = pipWindowRef s"
    by (simp_all add: step_widget_def handler_widget_def)
  show "timerIntervalRef (step_widget ClockPulse s) = timerIntervalRef s"
    and "intervals (step_widget ClockPulse s) = intervals s"
    using deps by (simp_all add: step_widget_def handler_widget_def commit_widget_def Let_def)
qed

subsection \<open>The example states\<close>

lemma activeWidgetApp_inv: "inv_widget activeWidgetApp"
  unfolding activeWidgetApp_def by (rule inv_widget_reachable)

lemma closedWidgetApp_inv: "inv_widget closedWidgetApp"
  unfolding closedWidgetApp_def by (rule inv_widget_reachable)

lemma missingTaskApp_inv: "inv_widget missingTaskApp"
  unfolding missingTaskApp_def by (rule inv_widget_reachable)

lemma activeWidgetApp_fields:
  "timedTaskId activeWidgetApp = Some ''task-1''"
  "tasks activeWidgetApp = [exampleTask1, exampleTask2]"
  by (simp_all add: activeWidgetApp_def step_widget_def handler_widget_def setTasks_def)

lemma missingTaskApp_fields:
  "timedTaskId missingTaskApp = Some ''task-1''"
  "tasks missingTaskApp = [exampleTask2]"
  by (simp_all add: missingTaskApp_def step_widget_def handler_widget_def setTasks_def)

lemma closedWidgetApp_fields:
  "timedTaskId closedWidgetApp = Some ''task-1''"
  "pipWindowRef closedWidgetApp = Some 0"
  by (simp_all add: closedWidgetApp_def step_widget_def handler_widget_def setTasks_def
      handleOpenWidget_def requestWindow_def initialApp_def truthy_def closeWindow_def Let_def)

lemma closedWidgetApp_closed: "closed (windows closedWidgetApp 0)"
proof -
  let ?s = "run_widget [OpenWidget Opened False, ReplaceTasks [exampleTask1, exampleTask2],
        StartButton ''task-1''] initialApp"
  have eq: "closedWidgetApp = step_widget UserClosesWindow ?s"
    by (simp add: closedWidgetApp_def)
  have st: "?s = commit_widget (handler_widget (StartButton ''task-1'')
      (run_widget [OpenWidget Opened False, ReplaceTasks [exampleTask1, exampleTask2]] initialApp))"
    by (simp add: step_widget_def)
  have fixed: "commit_widget ?s = ?s"
    by (subst (1 2) st) (rule commit_widget_idem)
  have pip: "pipWindowRef ?s = Some 0"
    by (simp add: step_widget_def handler_widget_def setTasks_def
      handleOpenWidget_def requestWindow_def initialApp_def truthy_def Let_def)
  have "handler_widget UserClosesWindow ?s = closeWindow 0 ?s"
    by (simp only: handler_widget_def Event.case pip option.case)
  moreover have "commit_widget (closeWindow 0 ?s) = closeWindow 0 ?s"
  proof (rule commit_widget_fix)
    show "timerDeps (closeWindow 0 ?s) = (timedTaskId (closeWindow 0 ?s), isDistracted (closeWindow 0 ?s))"
      by (subst (1 2 3) st) (simp add: closeWindow_def)
    show "renderDeps (closeWindow 0 ?s) = (timedTaskId (closeWindow 0 ?s), tasksVersion (closeWindow 0 ?s))"
      by (subst (1 2 3) st) (simp add: closeWindow_def)
  qed
  ultimately have e: "closedWidgetApp = closeWindow 0 ?s"
    by (simp only: eq step_widget_def)
  have "closed (windows (closeWindow 0 ?s) 0)"
    unfolding closeWindow_def by simp
  then show ?thesis by (simp only: e)
qed

lemma activeEffectApp_fields:
  "timedTaskId activeEffectApp = Some ''task-1''"
  "timerIntervalRef activeEffectApp = Some (IntervalId 1)"
  "intervals activeEffectApp = [(IntervalId 1, RefTick ''task-1'' 0)]"
  by (simp_all add: activeEffectApp_def openPipWindow_def handleStartTimer_effect_def
      requestWindow_def setInterval_def initialApp_def truthy_def Let_def)

lemma activeAsyncApp_fields:
  "timedTaskId activeAsyncApp = Some ''task-1''"
  "timerIntervalRef activeAsyncApp = Some (IntervalId 1)"
  "intervals activeAsyncApp = [(IntervalId 1, RefTick ''task-1'' 0)]"
  by (simp_all add: activeAsyncApp_def timerEffect_async_def handleStartTimer_async_def
      handleStartTimer_resume_def requestWindow_def setInterval_def initialApp_def truthy_def
      exampleTask1_def Let_def)

lemma secondTaskSession_inv: "inv_widget secondTaskSession"
  unfolding secondTaskSession_def by (rule inv_widget_reachable)

lemma secondTaskSession_fields:
  "timedTaskId secondTaskSession = Some ''task-2''"
  "tasks secondTaskSession = [exampleTask1, exampleTask2]"
  by (simp_all add: secondTaskSession_def step_widget_def handler_widget_def setTasks_def)

subsection \<open>The claims about the tick\<close>

text \<open>
  \<^bold>\<open>C1\<close>, as the code has it. While a session targets the task with id \<open>tid\<close>, every
  tick on counters below \<open>2 ^ 53\<close> adds exactly 1 to exactly one of \<open>timeSpent\<close> and
  \<open>distractionTime\<close> of that task: to \<open>distractionTime\<close> when the distraction flag read at
  the tick is true, to \<open>timeSpent\<close> otherwise. So after the ticks \<open>ds\<close> (the flags read, in
  order), if they take neither counter beyond \<open>2 ^ 53\<close>, \<open>timeSpent\<close> has grown by the
  number of false flags, \<open>distractionTime\<close> by the number of true ones, and their sum is
  its value at the start of the session plus the number of ticks; it is the number of
  ticks when both counters were 0 at the start. This holds for the updater of each
  version; and in a well-formed state of the widget version a clock pulse applies that
  updater exactly once.
\<close>

theorem ticks_attribute_each_second_once:
  assumes "i < length ts" and "id' (ts ! i) = tid"
    and "timeSpent (ts ! i) < 2 ^ 53" and "distractionTime (ts ! i) < 2 ^ 53"
  shows
    "timeSpent (fst (tickUpdater_widget tid d pip ts) ! i)
       = (if d then timeSpent (ts ! i) else timeSpent (ts ! i) + 1)
     \<and> distractionTime (fst (tickUpdater_widget tid d pip ts) ! i)
       = (if d then distractionTime (ts ! i) + 1 else distractionTime (ts ! i))
     \<and> timeSpent (fst (tickUpdater tid d w ts) ! i)
       = (if d then timeSpent (ts ! i) else timeSpent (ts ! i) + 1)
     \<and> distractionTime (fst (tickUpdater tid d w ts) ! i)
       = (if d then distractionTime (ts ! i) + 1 else distractionTime (ts ! i))
     \<and> (timeSpent (ts ! i) + length (filter Not ds) \<le> 2 ^ 53
          \<and> distractionTime (ts ! i) + length (filter id ds) \<le> 2 ^ 53 \<longrightarrow>
          timeSpent (fst (ticks_widget tid ds pip ts) ! i)
            = timeSpent (ts ! i) + length (filter Not ds)
          \<and> distractionTime (fst (ticks_widget tid ds pip ts) ! i)
            = distractionTime (ts ! i) + length (filter id ds)
          \<and> timeSpent (fst (ticks_widget tid ds pip ts) ! i)
              + distractionTime (fst (ticks_widget tid ds pip ts) ! i)
            = timeSpent (ts ! i) + distractionTime (ts ! i) + length ds
          \<and> timeSpent (fst (ticks tid ds w ts) ! i)
            = timeSpent (ts ! i) + length (filter Not ds)
          \<and> distractionTime (fst (ticks tid ds w ts) ! i)
            = distractionTime (ts ! i) + length (filter id ds)
          \<and> timeSpent (fst (ticks tid ds w ts) ! i)
              + distractionTime (fst (ticks tid ds w ts) ! i)
            = timeSpent (ts ! i) + distractionTime (ts ! i) + length ds
          \<and> (timeSpent (ts ! i) = 0 \<and> distractionTime (ts ! i) = 0 \<longrightarrow>
               timeSpent (fst (ticks_widget tid ds pip ts) ! i)
                 + distractionTime (fst (ticks_widget tid ds pip ts) ! i) = length ds
               \<and> timeSpent (fst (ticks tid ds w ts) ! i)
                 + distractionTime (fst (ticks tid ds w ts) ! i) = length ds))
     \<and> (inv_widget s \<and> timedTaskId s = Some tid \<and> tid \<noteq> [] \<longrightarrow>
          tasks (step_widget ClockPulse s)
            = fst (tickUpdater_widget tid (isDistracted s)
                     (map_option (windows s) (pipWindowRef s)) (tasks s)))"
proof -
  have one_w: "fst (tickUpdater_widget tid d pip ts) ! i
      = (ts ! i)\<lparr>timeSpent := newTimeSpent d (ts ! i),
                   distractionTime := newDistractionTime d (ts ! i)\<rparr>"
    using assms(1,2) by (simp add: tickUpdater_widget_tasks)
  have one_r: "fst (tickUpdater tid d w ts) ! i
      = (ts ! i)\<lparr>timeSpent := newTimeSpent d (ts ! i),
                   distractionTime := newDistractionTime d (ts ! i)\<rparr>"
    using assms(1,2) by (simp add: tickUpdater_tasks)
  note nt = newTimeSpent_exact [OF assms(3), of d]
  note nd = newDistractionTime_exact [OF assms(4), of d]
  have one: "timeSpent (fst (tickUpdater_widget tid d pip ts) ! i)
       = (if d then timeSpent (ts ! i) else timeSpent (ts ! i) + 1)
     \<and> distractionTime (fst (tickUpdater_widget tid d pip ts) ! i)
       = (if d then distractionTime (ts ! i) + 1 else distractionTime (ts ! i))
     \<and> timeSpent (fst (tickUpdater tid d w ts) ! i)
       = (if d then timeSpent (ts ! i) else timeSpent (ts ! i) + 1)
     \<and> distractionTime (fst (tickUpdater tid d w ts) ! i)
       = (if d then distractionTime (ts ! i) + 1 else distractionTime (ts ! i))"
    by (simp add: one_w one_r nt nd)
  have many: "timeSpent (fst (ticks_widget tid ds pip ts) ! i)
            = timeSpent (ts ! i) + length (filter Not ds)
          \<and> distractionTime (fst (ticks_widget tid ds pip ts) ! i)
            = distractionTime (ts ! i) + length (filter id ds)
          \<and> timeSpent (fst (ticks_widget tid ds pip ts) ! i)
              + distractionTime (fst (ticks_widget tid ds pip ts) ! i)
            = timeSpent (ts ! i) + distractionTime (ts ! i) + length ds
          \<and> timeSpent (fst (ticks tid ds w ts) ! i)
            = timeSpent (ts ! i) + length (filter Not ds)
          \<and> distractionTime (fst (ticks tid ds w ts) ! i)
            = distractionTime (ts ! i) + length (filter id ds)
          \<and> timeSpent (fst (ticks tid ds w ts) ! i)
              + distractionTime (fst (ticks tid ds w ts) ! i)
            = timeSpent (ts ! i) + distractionTime (ts ! i) + length ds
          \<and> (timeSpent (ts ! i) = 0 \<and> distractionTime (ts ! i) = 0 \<longrightarrow>
               timeSpent (fst (ticks_widget tid ds pip ts) ! i)
                 + distractionTime (fst (ticks_widget tid ds pip ts) ! i) = length ds
               \<and> timeSpent (fst (ticks tid ds w ts) ! i)
                 + distractionTime (fst (ticks tid ds w ts) ! i) = length ds)"
    if bound: "timeSpent (ts ! i) + length (filter Not ds) \<le> 2 ^ 53"
      "distractionTime (ts ! i) + length (filter id ds) \<le> 2 ^ 53"
  proof -
    have many_w: "fst (ticks_widget tid ds pip ts) ! i
        = (ts ! i)\<lparr>timeSpent := timeSpent (ts ! i) + length (filter Not ds),
                     distractionTime := distractionTime (ts ! i) + length (filter id ds)\<rparr>"
      using assms(1,2) bound by (rule ticks_widget_nth)
    have many_r: "fst (ticks tid ds w ts) ! i = fst (ticks_widget tid ds pip ts) ! i"
      by (simp only: ticks_fst_eq [of tid ds w ts pip])
    show ?thesis
      using count_flags [of ds] by (simp add: many_r many_w)
  qed
  have pulse: "inv_widget s \<and> timedTaskId s = Some tid \<and> tid \<noteq> [] \<longrightarrow>
      tasks (step_widget ClockPulse s)
        = fst (tickUpdater_widget tid (isDistracted s)
                 (map_option (windows s) (pipWindowRef s)) (tasks s))"
    using clockPulse_widget_tasks [of s tid] by blast
  show ?thesis
    using one many pulse by blast
qed

theorem ticks_attribute_each_second_once_witness:
  "(0::nat) < length [exampleTask1] \<and> id' ([exampleTask1] ! 0) = ''task-1''
   \<and> timeSpent ([exampleTask1] ! 0) < 2 ^ 53 \<and> distractionTime ([exampleTask1] ! 0) < 2 ^ 53
   \<and> timeSpent ([exampleTask1] ! 0) + length (filter Not [False, False, False, True, True])
       \<le> 2 ^ 53
   \<and> distractionTime ([exampleTask1] ! 0) + length (filter id [False, False, False, True, True])
       \<le> 2 ^ 53
   \<and> timeSpent ([exampleTask1] ! 0) = 0 \<and> distractionTime ([exampleTask1] ! 0) = 0
   \<and> timeSpent
        (fst (ticks ''task-1'' [False, False, False, True, True] exampleWindow [exampleTask1]) ! 0)
       = 3
   \<and> distractionTime
        (fst (ticks ''task-1'' [False, False, False, True, True] exampleWindow [exampleTask1]) ! 0)
       = 2
   \<and> timeSpent
        (fst (ticks_widget ''task-1'' [False, False, False, True, True] (Some exampleWindow)
               [exampleTask1]) ! 0)
      + distractionTime
        (fst (ticks_widget ''task-1'' [False, False, False, True, True] (Some exampleWindow)
               [exampleTask1]) ! 0) = length [False, False, False, True, True]
   \<and> inv_widget activeWidgetApp \<and> timedTaskId activeWidgetApp = Some ''task-1''
   \<and> tasks (step_widget ClockPulse activeWidgetApp)
       = fst (tickUpdater_widget ''task-1'' (isDistracted activeWidgetApp)
                (map_option (windows activeWidgetApp) (pipWindowRef activeWidgetApp))
                (tasks activeWidgetApp))"
proof -
  have h1: "(0::nat) < length [exampleTask1]" by simp
  have h2: "id' ([exampleTask1] ! 0) = ''task-1''" by (simp add: exampleTask1_def)
  have h3: "timedTaskId activeWidgetApp = Some ''task-1''" by (rule activeWidgetApp_fields)
  have h4: "''task-1'' \<noteq> []" by simp
  have h5: "timeSpent ([exampleTask1] ! 0) = 0 \<and> distractionTime ([exampleTask1] ! 0) = 0"
    by (simp add: exampleTask1_def)
  have h6: "timeSpent ([exampleTask1] ! 0) < 2 ^ 53"
    and h7: "distractionTime ([exampleTask1] ! 0) < 2 ^ 53"
    by (simp_all add: exampleTask1_def)
  have h8: "timeSpent ([exampleTask1] ! 0) + length (filter Not [False, False, False, True, True])
       \<le> 2 ^ 53"
    and h9: "distractionTime ([exampleTask1] ! 0)
         + length (filter id [False, False, False, True, True]) \<le> 2 ^ 53"
    by (simp_all add: exampleTask1_def)
  note th = ticks_attribute_each_second_once [OF h1 h2 h6 h7,
      of False "Some exampleWindow" exampleWindow "[False, False, False, True, True]"
        activeWidgetApp]
  have c1: "timeSpent
        (fst (ticks ''task-1'' [False, False, False, True, True] exampleWindow [exampleTask1]) ! 0)
       = timeSpent ([exampleTask1] ! 0) + length (filter Not [False, False, False, True, True])"
    and c2: "distractionTime
        (fst (ticks ''task-1'' [False, False, False, True, True] exampleWindow [exampleTask1]) ! 0)
       = distractionTime ([exampleTask1] ! 0)
          + length (filter id [False, False, False, True, True])"
    using th h8 h9 by blast+
  have c1': "timeSpent
        (fst (ticks ''task-1'' [False, False, False, True, True] exampleWindow [exampleTask1]) ! 0)
       = 3"
    and c2': "distractionTime
        (fst (ticks ''task-1'' [False, False, False, True, True] exampleWindow [exampleTask1]) ! 0)
       = 2"
    by (simp_all only: c1 c2) (simp_all add: exampleTask1_def)
  have c3: "timeSpent
        (fst (ticks_widget ''task-1'' [False, False, False, True, True] (Some exampleWindow)
               [exampleTask1]) ! 0)
      + distractionTime
        (fst (ticks_widget ''task-1'' [False, False, False, True, True] (Some exampleWindow)
               [exampleTask1]) ! 0) = length [False, False, False, True, True]"
    using th h5 h8 h9 by blast
  have c5: "tasks (step_widget ClockPulse activeWidgetApp)
       = fst (tickUpdater_widget ''task-1'' (isDistracted activeWidgetApp)
                (map_option (windows activeWidgetApp) (pipWindowRef activeWidgetApp))
                (tasks activeWidgetApp))"
    using th activeWidgetApp_inv h3 h4 by blast
  show ?thesis
    using h1 h2 h3 h5 h6 h7 h8 h9 c1' c2' c3 c5 activeWidgetApp_inv by blast
qed

text \<open>
  The counters are those of the task and are not reset when a session starts: in a
  session on a task with 40 and 7 seconds recorded before, the sum is 47 at the start
  and 48 after the first tick, not 1. And a tick on a counter that has reached \<open>2 ^ 53\<close>
  adds nothing: the sum \<open>2 ^ 53 + 1\<close> is not a double and is rounded back to \<open>2 ^ 53\<close>,
  so that neither counter grows.
\<close>

theorem tick_sum_includes_time_before_session:
  "timedTaskId secondTaskSession = Some ''task-2''
   \<and> id' (tasks secondTaskSession ! 1) = ''task-2''
   \<and> timeSpent (tasks secondTaskSession ! 1) + distractionTime (tasks secondTaskSession ! 1) = 47
   \<and> timeSpent (tasks (step_widget ClockPulse secondTaskSession) ! 1)
      + distractionTime (tasks (step_widget ClockPulse secondTaskSession) ! 1) = 48
   \<and> length [False] = 1
   \<and> timeSpent (fst (ticks_widget ''task-2'' [False] (Some exampleWindow) [exampleTask2]) ! 0)
      + distractionTime
          (fst (ticks_widget ''task-2'' [False] (Some exampleWindow) [exampleTask2]) ! 0) = 48
   \<and> timeSpent (fst (ticks ''task-2'' [False] exampleWindow [exampleTask2]) ! 0)
      + distractionTime (fst (ticks ''task-2'' [False] exampleWindow [exampleTask2]) ! 0) = 48
   \<and> isDouble (timeSpent saturatedTask) \<and> timeSpent saturatedTask = 2 ^ 53
   \<and> timeSpent (fst (tickUpdater ''task-3'' False exampleWindow [saturatedTask]) ! 0)
       = timeSpent saturatedTask
   \<and> distractionTime (fst (tickUpdater ''task-3'' False exampleWindow [saturatedTask]) ! 0)
       = distractionTime saturatedTask
   \<and> fst (tickUpdater_widget ''task-3'' False (Some exampleWindow) [saturatedTask])
       = [saturatedTask]"
proof -
  have a: "timedTaskId secondTaskSession = Some ''task-2''" by (rule secondTaskSession_fields)
  have ne: "''task-2'' \<noteq> []" by simp
  have t2: "newTimeSpent False exampleTask2 = 41" "newDistractionTime False exampleTask2 = 7"
    "newTimeSpent True exampleTask2 = 40" "newDistractionTime True exampleTask2 = 8"
    by (simp_all add: newTimeSpent_def newDistractionTime_def addDouble_one exampleTask2_def)
  have "tasks (step_widget ClockPulse secondTaskSession)
      = fst (tickUpdater_widget ''task-2'' (isDistracted secondTaskSession)
               (map_option (windows secondTaskSession) (pipWindowRef secondTaskSession))
               [exampleTask1, exampleTask2])"
    by (simp only: clockPulse_widget_tasks [OF secondTaskSession_inv a ne]
        secondTaskSession_fields)
  then have b: "timeSpent (tasks (step_widget ClockPulse secondTaskSession) ! 1)
      + distractionTime (tasks (step_widget ClockPulse secondTaskSession) ! 1) = 48"
    using t2 by (cases "isDistracted secondTaskSession")
      (simp_all add: tickUpdater_widget_tasks exampleTask1_def exampleTask2_def)
  have c: "fst (ticks_widget ''task-2'' [False] (Some exampleWindow) [exampleTask2])
      = [exampleTask2\<lparr>timeSpent := 41, distractionTime := 7\<rparr>]"
    using t2 tickUpdater_widget_tasks [of "''task-2''" False "Some exampleWindow" "[exampleTask2]"]
    by (simp add: case_prod_beta exampleTask2_def)
  have d: "fst (ticks ''task-2'' [False] exampleWindow [exampleTask2])
      = [exampleTask2\<lparr>timeSpent := 41, distractionTime := 7\<rparr>]"
    by (simp only: ticks_fst_eq [of _ _ _ _ "Some exampleWindow"] c)
  have e: "isDouble (timeSpent saturatedTask)" "timeSpent saturatedTask = 2 ^ 53"
    using roundDouble_pow53 by (simp_all add: saturatedTask_def isDouble_def)
  have "addDouble (timeSpent saturatedTask) 1 = timeSpent saturatedTask"
    using addDouble_one_at_pow53 by (simp add: saturatedTask_def)
  then have t3: "newTimeSpent False saturatedTask = timeSpent saturatedTask"
    "newDistractionTime False saturatedTask = distractionTime saturatedTask"
    by (simp_all add: newTimeSpent_def newDistractionTime_def)
  have i3: "id' saturatedTask = ''task-3''" by (simp add: saturatedTask_def)
  have f: "fst (tickUpdater ''task-3'' False exampleWindow [saturatedTask]) = [saturatedTask]"
    "fst (tickUpdater_widget ''task-3'' False (Some exampleWindow) [saturatedTask])
       = [saturatedTask]"
    by (simp_all add: tickUpdater_tasks tickUpdater_widget_tasks t3 i3)
  have g: "id' (tasks secondTaskSession ! 1) = ''task-2''"
    "timeSpent (tasks secondTaskSession ! 1) + distractionTime (tasks secondTaskSession ! 1) = 47"
    by (simp_all add: secondTaskSession_fields exampleTask2_def)
  have c': "timeSpent (fst (ticks_widget ''task-2'' [False] (Some exampleWindow) [exampleTask2]) ! 0)
      + distractionTime
          (fst (ticks_widget ''task-2'' [False] (Some exampleWindow) [exampleTask2]) ! 0) = 48"
    by (simp only: c) simp
  have d': "timeSpent (fst (ticks ''task-2'' [False] exampleWindow [exampleTask2]) ! 0)
      + distractionTime (fst (ticks ''task-2'' [False] exampleWindow [exampleTask2]) ! 0) = 48"
    by (simp only: d) simp
  have f': "timeSpent (fst (tickUpdater ''task-3'' False exampleWindow [saturatedTask]) ! 0)
       = timeSpent saturatedTask"
    "distractionTime (fst (tickUpdater ''task-3'' False exampleWindow [saturatedTask]) ! 0)
       = distractionTime saturatedTask"
    by (simp_all only: f) simp_all
  have l: "length [False] = 1" by simp
  show ?thesis
    using a b e g c' d' f' f(2) l by blast
qed

text \<open>
  \<^bold>\<open>C7\<close>. A tick for the task id \<open>tid\<close> returns a list of the same length in which every
  task with another id is the task it was, and a task with id \<open>tid\<close> differs from what it
  was in \<open>timeSpent\<close> and \<open>distractionTime\<close> only: \<open>id\<close>, \<open>name\<close>, \<open>impact\<close>, \<open>effort\<close>,
  \<open>deadline\<close> and \<open>status\<close> are those of the list it was given.
\<close>

theorem tick_is_delta_keyed_by_id:
  assumes "i < length ts"
  shows
    "length (fst (tickUpdater_widget tid d pip ts)) = length ts
     \<and> length (fst (tickUpdater tid d w ts)) = length ts
     \<and> (if id' (ts ! i) = tid
          then (fst (tickUpdater_widget tid d pip ts) ! i)
                  \<lparr>timeSpent := timeSpent (ts ! i),
                   distractionTime := distractionTime (ts ! i)\<rparr> = ts ! i
             \<and> (fst (tickUpdater tid d w ts) ! i)
                  \<lparr>timeSpent := timeSpent (ts ! i),
                   distractionTime := distractionTime (ts ! i)\<rparr> = ts ! i
          else fst (tickUpdater_widget tid d pip ts) ! i = ts ! i
             \<and> fst (tickUpdater tid d w ts) ! i = ts ! i)
     \<and> id' (fst (tickUpdater_widget tid d pip ts) ! i) = id' (ts ! i)
     \<and> name (fst (tickUpdater_widget tid d pip ts) ! i) = name (ts ! i)
     \<and> impact (fst (tickUpdater_widget tid d pip ts) ! i) = impact (ts ! i)
     \<and> effort (fst (tickUpdater_widget tid d pip ts) ! i) = effort (ts ! i)
     \<and> deadline (fst (tickUpdater_widget tid d pip ts) ! i) = deadline (ts ! i)
     \<and> status (fst (tickUpdater_widget tid d pip ts) ! i) = status (ts ! i)
     \<and> id' (fst (tickUpdater tid d w ts) ! i) = id' (ts ! i)
     \<and> name (fst (tickUpdater tid d w ts) ! i) = name (ts ! i)
     \<and> impact (fst (tickUpdater tid d w ts) ! i) = impact (ts ! i)
     \<and> effort (fst (tickUpdater tid d w ts) ! i) = effort (ts ! i)
     \<and> deadline (fst (tickUpdater tid d w ts) ! i) = deadline (ts ! i)
     \<and> status (fst (tickUpdater tid d w ts) ! i) = status (ts ! i)"
  using assms by (simp add: tickUpdater_widget_tasks tickUpdater_tasks)

theorem tick_is_delta_keyed_by_id_witness:
  "(1::nat) < length [exampleTask1, exampleTask2]
   \<and> fst (tickUpdater_widget ''task-1'' False (Some exampleWindow) [exampleTask1, exampleTask2]) ! 1
       = exampleTask2
   \<and> fst (tickUpdater ''task-1'' False exampleWindow [exampleTask1, exampleTask2]) ! 1
       = exampleTask2
   \<and> name (fst (tickUpdater ''task-2'' True exampleWindow [exampleTask1, exampleTask2]) ! 1)
       = ''read''
   \<and> deadline (fst (tickUpdater_widget ''task-2'' True None [exampleTask1, exampleTask2]) ! 1)
       = ''2025-02-01''"
proof -
  have h: "(1::nat) < length [exampleTask1, exampleTask2]" by simp
  show ?thesis
    using h tick_is_delta_keyed_by_id [OF h, of "''task-1''" False "Some exampleWindow" exampleWindow]
      tick_is_delta_keyed_by_id [OF h, of "''task-2''" True None exampleWindow]
    by (simp add: exampleTask1_def exampleTask2_def)
qed



subsection \<open>The claims about stopping\<close>

text \<open>
  \<^bold>\<open>C3\<close>. Stopping is idempotent: from every state, \<open>handleStopTimer\<close> of either kind
  applied twice gives the state that one application gives, and that state is idle (no
  interval handle, no window, no timed task). Applied to an idle state it changes
  nothing.
\<close>

theorem stop_is_idempotent:
  "handleStopTimer_widget (handleStopTimer_widget s) = handleStopTimer_widget s
   \<and> handleStopTimer (handleStopTimer s) = handleStopTimer s
   \<and> idle (handleStopTimer_widget s) \<and> idle (handleStopTimer s)
   \<and> (idle s \<longrightarrow> handleStopTimer_widget s = s \<and> handleStopTimer s = s)"
  using handleStopTimer_widget_idle [OF idle_handleStopTimer_widget [of s]]
    handleStopTimer_idle [OF idle_handleStopTimer [of s]]
  by (simp add: idle_handleStopTimer_widget idle_handleStopTimer
      handleStopTimer_widget_idle handleStopTimer_idle)

theorem stop_is_idempotent_witness:
  "idle initialApp \<and> handleStopTimer_widget initialApp = initialApp
   \<and> handleStopTimer initialApp = initialApp"
proof -
  have h: "idle initialApp" by (simp add: idle_def initialApp_def)
  show ?thesis using h stop_is_idempotent [of initialApp] by blast
qed

text \<open>
  \<^bold>\<open>C10\<close>. After \<open>handleStopTimer\<close> of either kind the interval handle is \<open>None\<close> and the
  interval it named is no longer registered, the window handle is \<open>None\<close> and the window
  it named is closed, the timed task is \<open>None\<close>, and the tasks are untouched. The paths
  that stop a session end in that state: the \<open>pagehide\<close> listener of the widget version
  (also after React's commit), and the \<open>pagehide\<close> listener and the effect cleanup of the
  other two versions.
\<close>

theorem handleStopTimer_resets_controller:
  "timerIntervalRef (handleStopTimer_widget s) = None
   \<and> pipWindowRef (handleStopTimer_widget s) = None
   \<and> timedTaskId (handleStopTimer_widget s) = None
   \<and> tasks (handleStopTimer_widget s) = tasks s
   \<and> (case timerIntervalRef s of
         None \<Rightarrow> intervals (handleStopTimer_widget s) = intervals s
       | Some h \<Rightarrow> list_all (\<lambda>e. fst e \<noteq> h) (intervals (handleStopTimer_widget s)))
   \<and> (case pipWindowRef s of
         None \<Rightarrow> windows (handleStopTimer_widget s) = windows s
       | Some p \<Rightarrow> closed (windows (handleStopTimer_widget s) p))
   \<and> timerIntervalRef (handleStopTimer s) = None
   \<and> pipWindowRef (handleStopTimer s) = None
   \<and> timedTaskId (handleStopTimer s) = None
   \<and> tasks (handleStopTimer s) = tasks s
   \<and> (case timerIntervalRef s of
         None \<Rightarrow> intervals (handleStopTimer s) = intervals s
       | Some h \<Rightarrow> list_all (\<lambda>e. fst e \<noteq> h) (intervals (handleStopTimer s)))
   \<and> (case pipWindowRef s of
         None \<Rightarrow> windows (handleStopTimer s) = windows s
       | Some p \<Rightarrow> closed (windows (handleStopTimer s) p))
   \<and> handler_widget PageHide s = handleStopTimer_widget s
   \<and> timerIntervalRef (step_widget PageHide s) = None
   \<and> pipWindowRef (step_widget PageHide s) = None
   \<and> timedTaskId (step_widget PageHide s) = None
   \<and> pagehide s = handleStopTimer s
   \<and> effectCleanup s = handleStopTimer s"
proof -
  have "idle (step_widget PageHide s)"
    using idle_commit_widget [OF idle_handleStopTimer_widget [of s]]
    by (simp add: step_widget_def handler_widget_def)
  then show ?thesis
    by (simp add: handleStopTimer_widget_intervals handleStopTimer_widget_windows
        handleStopTimer_intervals handleStopTimer_windows handler_widget_def pagehide_def
        effectCleanup_def idle_def list_all_iff split: option.splits)
qed

text \<open>
  \<^bold>\<open>C4\<close>. In an active session of the widget version (a well-formed state with a timed
  task) the \<open>pagehide\<close> notification runs \<open>handleStopTimer\<close>; after it the state is idle and
  no interval is registered, so any number of further clock pulses leave the state, and
  with it the tasks, as they are. The poll that finds the window closed does the same. In
  the other two versions the \<open>pagehide\<close> listener leaves the state idle and, when the
  registered intervals are those of the handle, clock pulses change nothing afterwards.
\<close>

theorem close_notification_ends_ticking:
  assumes "inv_widget s" and "truthy (timedTaskId s)"
  shows
    "handler_widget PageHide s = handleStopTimer_widget s
     \<and> idle (step_widget PageHide s)
     \<and> intervals (step_widget PageHide s) = []
     \<and> run_widget (replicate n ClockPulse) (step_widget PageHide s) = step_widget PageHide s
     \<and> tasks (run_widget (replicate n ClockPulse) (step_widget PageHide s)) = tasks s
     \<and> (case pipWindowRef s of
           None \<Rightarrow> True
         | Some p \<Rightarrow>
             closed (windows s p) \<longrightarrow>
               handler_widget CheckPipClosed s = handleStopTimer_widget s
               \<and> step_widget CheckPipClosed s = step_widget PageHide s)
     \<and> idle (pagehide r)
     \<and> (case timerIntervalRef r of
           None \<Rightarrow> True
         | Some h \<Rightarrow>
             list_all (\<lambda>e. fst e = h) (intervals r) \<longrightarrow>
               intervals (pagehide r) = [] \<and> clockPulse (pagehide r) = pagehide r)"
proof -
  have fixed: "commit_widget (step_widget PageHide s) = step_widget PageHide s"
    by (simp add: step_widget_def commit_widget_idem)
  have quiet: "run_widget (replicate n ClockPulse) (step_widget PageHide s) = step_widget PageHide s"
    by (rule run_widget_pulses_quiet [OF step_PageHide(2) [OF assms(1)] fixed])
  have ref: "\<And>h. timerIntervalRef r = Some h \<Longrightarrow> list_all (\<lambda>e. fst e = h) (intervals r)
      \<Longrightarrow> intervals (pagehide r) = [] \<and> clockPulse (pagehide r) = pagehide r"
  proof -
    fix h
    assume "timerIntervalRef r = Some h" and "list_all (\<lambda>e. fst e = h) (intervals r)"
    then have "intervals (pagehide r) = []"
      by (simp add: pagehide_def handleStopTimer_intervals filter_all_same)
    then show "intervals (pagehide r) = [] \<and> clockPulse (pagehide r) = pagehide r"
      by (simp add: clockPulse_no_intervals)
  qed
  have "idle (pagehide r)" by (simp add: pagehide_def idle_handleStopTimer)
  then show ?thesis
    using step_PageHide [OF assms(1)] quiet ref
    by (simp add: handler_widget_def step_widget_def checkPipClosedInterval_def
        split: option.splits)
qed

theorem close_notification_ends_ticking_witness:
  "inv_widget closedWidgetApp \<and> truthy (timedTaskId closedWidgetApp)
   \<and> pipWindowRef closedWidgetApp = Some 0 \<and> closed (windows closedWidgetApp 0)
   \<and> timerIntervalRef activeEffectApp = Some (IntervalId 1)
   \<and> list_all (\<lambda>e. fst e = IntervalId 1) (intervals activeEffectApp)
   \<and> idle (step_widget PageHide closedWidgetApp)
   \<and> intervals (step_widget PageHide closedWidgetApp) = []
   \<and> tasks (run_widget (replicate 5 ClockPulse) (step_widget PageHide closedWidgetApp))
       = tasks closedWidgetApp
   \<and> step_widget CheckPipClosed closedWidgetApp = step_widget PageHide closedWidgetApp
   \<and> clockPulse (pagehide activeEffectApp) = pagehide activeEffectApp"
proof -
  have h1: "inv_widget closedWidgetApp" by (rule closedWidgetApp_inv)
  have h2: "truthy (timedTaskId closedWidgetApp)"
    by (simp add: closedWidgetApp_fields truthy_def)
  have h3: "pipWindowRef closedWidgetApp = Some 0" by (rule closedWidgetApp_fields)
  have h4: "closed (windows closedWidgetApp 0)" by (rule closedWidgetApp_closed)
  have h5: "timerIntervalRef activeEffectApp = Some (IntervalId 1)"
    by (rule activeEffectApp_fields)
  have h6: "list_all (\<lambda>e. fst e = IntervalId 1) (intervals activeEffectApp)"
    by (simp add: activeEffectApp_fields)
  note th = close_notification_ends_ticking [OF h1 h2, of 5 activeEffectApp]
  have c1: "step_widget CheckPipClosed closedWidgetApp = step_widget PageHide closedWidgetApp"
    using th h4 by (simp add: h3)
  have c2: "clockPulse (pagehide activeEffectApp) = pagehide activeEffectApp"
    using th h6 by (simp add: h5)
  show ?thesis
    using h1 h2 h3 h4 h5 h6 c1 c2 th by blast
qed

subsection \<open>The claims about starting\<close>

text \<open>
  The guard of both \<^verbatim>\<open>handleStartTimer\<close>: when \<open>timedTaskId\<close> is truthy (a non-empty
  string), a start request for any task, whatever the acquisition would give, reports
  \<open>AlreadyActive\<close> and returns the state unchanged: the session still targets its task and
  no counter moved.
\<close>

lemma start_rejected_when_truthy:
  assumes "truthy (timedTaskId s)"
  shows "handleStartTimer_async taskId2 acq s = (AlreadyActive, s)
       \<and> handleStartTimer_effect taskId2 s = (AlreadyActive, s)"
  using assms by (simp add: handleStartTimer_async_def handleStartTimer_effect_def)

lemma start_rejected_when_truthy_example:
  "truthy (timedTaskId activeAsyncApp)
   \<and> handleStartTimer_async ''task-2'' Opened activeAsyncApp = (AlreadyActive, activeAsyncApp)
   \<and> handleStartTimer_effect ''task-2'' activeAsyncApp = (AlreadyActive, activeAsyncApp)"
proof -
  have h: "truthy (timedTaskId activeAsyncApp)"
    by (simp add: activeAsyncApp_fields truthy_def)
  show ?thesis
    using h start_rejected_when_truthy [OF h, of "''task-2''" Opened] by blast
qed

text \<open>
  \<^bold>\<open>C2\<close>. The claim asks that a start be rejected with \<open>AlreadyActive\<close>, the session
  untouched, in every state whose \<open>timedTaskId\<close> is not \<^verbatim>\<open>null\<close>. The guard of the source is
  \<^verbatim>\<open>if (timedTaskId)\<close>, which the empty string does not pass. With a task whose id is the
  empty string in the task array (the import accepts one after the first task), the
  async-start version
  starts it and ends with \<open>timedTaskId\<close> the empty string, which is not \<^verbatim>\<open>null\<close>; a start
  for another task is then not rejected: it acquires a window and replaces the timed
  task. The effect-acquire handler, in the same state, replaces the timed task as well.
\<close>

theorem start_accepted_over_empty_id:
  "fst (handleStartTimer_async [] Opened (initialApp\<lparr>tasks := [exampleTask2, emptyIdTask]\<rparr>))
     = Started
   \<and> timedTaskId emptyIdSession = Some []
   \<and> pipWindowRef emptyIdSession = Some 0
   \<and> fst (handleStartTimer_async ''task-2'' Opened emptyIdSession) = Started
   \<and> timedTaskId (snd (handleStartTimer_async ''task-2'' Opened emptyIdSession)) = Some ''task-2''
   \<and> pipWindowRef (snd (handleStartTimer_async ''task-2'' Opened emptyIdSession)) = Some 1
   \<and> fst (handleStartTimer_effect ''task-2'' emptyIdSession) = Acquiring
   \<and> timedTaskId (snd (handleStartTimer_effect ''task-2'' emptyIdSession)) = Some ''task-2''"
  by (simp add: emptyIdSession_def handleStartTimer_async_def handleStartTimer_effect_def
      handleStartTimer_resume_def requestWindow_def initialApp_def truthy_def emptyIdTask_def
      exampleTask2_def Let_def)

text \<open>
  \<^bold>\<open>C5\<close>. When the acquisition fails (the API is missing, or the request is rejected or
  throws), a start that reached the acquisition reports \<open>SurfaceUnavailable\<close> and creates
  no session: tasks, window handle, interval handle, registered intervals and windows
  are what they were, \<open>timedTaskId\<close> is falsy, and an idle state stays idle. The part of
  the async-start handler that runs after a rejected promise only sets \<open>timedTaskId\<close> to
  \<open>None\<close>, on whatever the state then is; so does the effect-acquire \<open>openPipWindow\<close>,
  which therefore ends idle when no handle was set.
\<close>

theorem failed_acquisition_creates_no_session:
  assumes "\<not> truthy (timedTaskId s)"
    and "find (\<lambda>t. id' t = taskId) (tasks s) = Some task"
    and "acq \<noteq> Opened"
  shows
    "fst (handleStartTimer_async taskId acq s) = SurfaceUnavailable
     \<and> tasks (snd (handleStartTimer_async taskId acq s)) = tasks s
     \<and> pipWindowRef (snd (handleStartTimer_async taskId acq s)) = pipWindowRef s
     \<and> timerIntervalRef (snd (handleStartTimer_async taskId acq s)) = timerIntervalRef s
     \<and> intervals (snd (handleStartTimer_async taskId acq s)) = intervals s
     \<and> windows (snd (handleStartTimer_async taskId acq s)) = windows s
     \<and> \<not> truthy (timedTaskId (snd (handleStartTimer_async taskId acq s)))
     \<and> (idle s \<longrightarrow> idle (snd (handleStartTimer_async taskId acq s)))
     \<and> handleStartTimer_resume taskId task False s' = (SurfaceUnavailable, s'\<lparr>timedTaskId := None\<rparr>)
     \<and> openPipWindow taskId task acq s' = (SurfaceUnavailable, s'\<lparr>timedTaskId := None\<rparr>)
     \<and> (pipWindowRef s' = None \<and> timerIntervalRef s' = None
          \<longrightarrow> idle (snd (openPipWindow taskId task acq s')))"
  using assms
  by (cases acq)
    (simp_all add: handleStartTimer_async_def handleStartTimer_resume_def openPipWindow_def
      idle_def truthy_def)

theorem failed_acquisition_creates_no_session_witness:
  "\<not> truthy (timedTaskId (initialApp\<lparr>tasks := [exampleTask1, exampleTask2]\<rparr>))
   \<and> find (\<lambda>t. id' t = ''task-2'') (tasks (initialApp\<lparr>tasks := [exampleTask1, exampleTask2]\<rparr>))
       = Some exampleTask2
   \<and> Rejected \<noteq> Opened
   \<and> idle (initialApp\<lparr>tasks := [exampleTask1, exampleTask2]\<rparr>)
   \<and> fst (handleStartTimer_async ''task-2'' Rejected
             (initialApp\<lparr>tasks := [exampleTask1, exampleTask2]\<rparr>))
       = SurfaceUnavailable
   \<and> idle (snd (handleStartTimer_async ''task-2'' Rejected
                  (initialApp\<lparr>tasks := [exampleTask1, exampleTask2]\<rparr>)))
   \<and> tasks (snd (handleStartTimer_async ''task-2'' Rejected
                   (initialApp\<lparr>tasks := [exampleTask1, exampleTask2]\<rparr>)))
       = [exampleTask1, exampleTask2]
   \<and> idle (snd (openPipWindow ''task-2'' exampleTask2 Rejected
               (snd (handleStartTimer_effect ''task-2''
                       (initialApp\<lparr>tasks := [exampleTask1, exampleTask2]\<rparr>)))))"
proof -
  let ?s = "initialApp\<lparr>tasks := [exampleTask1, exampleTask2]\<rparr>"
  let ?s' = "snd (handleStartTimer_effect ''task-2'' ?s)"
  have h1: "\<not> truthy (timedTaskId ?s)" by (simp add: initialApp_def truthy_def)
  have h2: "find (\<lambda>t. id' t = ''task-2'') (tasks ?s) = Some exampleTask2"
    by (simp add: exampleTask1_def exampleTask2_def)
  have h3: "Rejected \<noteq> Opened" by simp
  have h4: "idle ?s" by (simp add: idle_def initialApp_def)
  have h5: "pipWindowRef ?s' = None \<and> timerIntervalRef ?s' = None"
    by (simp add: handleStartTimer_effect_def initialApp_def truthy_def)
  note th = failed_acquisition_creates_no_session [OF h1 h2 h3, of ?s']
  have c1: "tasks (snd (handleStartTimer_async ''task-2'' Rejected ?s))
      = [exampleTask1, exampleTask2]"
    using th by simp
  have c2: "idle (snd (handleStartTimer_async ''task-2'' Rejected ?s))"
    using th h4 by blast
  have c3: "idle (snd (openPipWindow ''task-2'' exampleTask2 Rejected ?s'))"
    using th h5 by blast
  have c4: "fst (handleStartTimer_async ''task-2'' Rejected ?s) = SurfaceUnavailable"
    using th by blast
  show ?thesis
    using h1 h2 h3 h4 c1 c2 c3 c4 by blast
qed

subsection \<open>The claim about a task deleted during a session\<close>

text \<open>
  \<^bold>\<open>C6\<close>, as the code has it. When no task has the targeted id any more, a tick changes
  no task and does not stop the session: in a well-formed state of the widget version
  the step of a clock pulse leaves the tasks, \<open>timedTaskId\<close>, the window handle, the
  interval handle and the registered interval as they were, so the state is not idle and
  the next pulse ticks again; the updater of each version returns the list and the
  window it was given; and the interval callback of each version, whatever the tasks,
  never touches \<open>timedTaskId\<close>, the handles or the registered intervals.
\<close>

theorem tick_without_target_keeps_session:
  assumes "inv_widget s" and "timedTaskId s = Some tid" and "tid \<noteq> []"
    and "find (\<lambda>t. id' t = tid) (tasks s) = None"
  shows
    "tasks (step_widget ClockPulse s) = tasks s
     \<and> timedTaskId (step_widget ClockPulse s) = Some tid
     \<and> pipWindowRef (step_widget ClockPulse s) = pipWindowRef s
     \<and> timerIntervalRef (step_widget ClockPulse s) = timerIntervalRef s
     \<and> intervals (step_widget ClockPulse s) = intervals s
     \<and> intervals (step_widget ClockPulse s) \<noteq> []
     \<and> \<not> idle (step_widget ClockPulse s)
     \<and> tickUpdater_widget tid d pip (tasks s) = (tasks s, pip)
     \<and> tickUpdater tid d w (tasks s) = (tasks s, w)
     \<and> timedTaskId (intervalCallback cl r) = timedTaskId r
     \<and> pipWindowRef (intervalCallback cl r) = pipWindowRef r
     \<and> timerIntervalRef (intervalCallback cl r) = timerIntervalRef r
     \<and> intervals (intervalCallback cl r) = intervals r
     \<and> timedTaskId (clockPulse r) = timedTaskId r
     \<and> pipWindowRef (clockPulse r) = pipWindowRef r
     \<and> timerIntervalRef (clockPulse r) = timerIntervalRef r
     \<and> intervals (clockPulse r) = intervals r"
proof -
  have "intervals s \<noteq> []"
    by (rule inv_widget_subscribed(2) [OF assms(1-3)])
  then show ?thesis
    using step_ClockPulse_keeps_subscription [OF assms(1)]
      clockPulse_widget_tasks [OF assms(1-3)]
      tickUpdater_widget_missing [OF assms(4)] tickUpdater_missing [OF assms(4)] assms(2)
    by (simp add: idle_def)
qed

theorem tick_without_target_keeps_session_witness:
  "inv_widget missingTaskApp \<and> timedTaskId missingTaskApp = Some ''task-1''
   \<and> ''task-1'' \<noteq> []
   \<and> find (\<lambda>t. id' t = ''task-1'') (tasks missingTaskApp) = None
   \<and> tasks (step_widget ClockPulse missingTaskApp) = tasks missingTaskApp
   \<and> \<not> idle (step_widget ClockPulse missingTaskApp)"
proof -
  have h2: "timedTaskId missingTaskApp = Some ''task-1''" by (rule missingTaskApp_fields)
  have h3: "''task-1'' \<noteq> []" by simp
  have h4: "find (\<lambda>t. id' t = ''task-1'') (tasks missingTaskApp) = None"
    by (simp add: missingTaskApp_fields exampleTask2_def)
  show ?thesis
    using missingTaskApp_inv h2 h3 h4
      tick_without_target_keeps_session [OF missingTaskApp_inv h2 h3 h4]
    by blast
qed

text \<open>
  The claim as written fails in the widget version: after the task array was replaced by
  one without the timed task, a clock pulse leaves the session running.
\<close>

theorem deleted_task_session_not_stopped:
  "find (\<lambda>t. id' t = ''task-1'') (tasks missingTaskApp) = None
   \<and> timedTaskId missingTaskApp = Some ''task-1''
   \<and> tasks (step_widget ClockPulse missingTaskApp) = [exampleTask2]
   \<and> timedTaskId (step_widget ClockPulse missingTaskApp) = Some ''task-1''
   \<and> timerIntervalRef (step_widget ClockPulse missingTaskApp) \<noteq> None
   \<and> intervals (step_widget ClockPulse missingTaskApp) \<noteq> []
   \<and> \<not> idle (step_widget ClockPulse missingTaskApp)"
proof -
  have a: "timedTaskId missingTaskApp = Some ''task-1''" by (rule missingTaskApp_fields)
  have b: "find (\<lambda>t. id' t = ''task-1'') (tasks missingTaskApp) = None"
    by (simp add: missingTaskApp_fields exampleTask2_def)
  have ne: "''task-1'' \<noteq> []" by simp
  have "tasks (step_widget ClockPulse missingTaskApp) = tasks missingTaskApp"
    by (simp only: clockPulse_widget_tasks [OF missingTaskApp_inv a ne]
        tickUpdater_widget_missing [OF b] fst_conv)
  then have c: "tasks (step_widget ClockPulse missingTaskApp) = [exampleTask2]"
    by (simp only: missingTaskApp_fields)
  show ?thesis
    using a b c step_ClockPulse_keeps_subscription [OF missingTaskApp_inv]
      inv_widget_subscribed [OF missingTaskApp_inv a ne]
    by (simp add: idle_def)
qed

end
